theory Spec2Isabelle
  imports Main "HOL-Library.AList" "HOL-Library.Word"
begin

section \<open>Values, Go maps and errors\<close>

text \<open>
  A value of Go's \<^verbatim>\<open>interface{}\<close> as the option encoders store it. A
  \<^verbatim>\<open>map[string]interface{}\<close> that the code builds is a partial function from keys
  to values; a slice keeps Go's difference between \<^verbatim>\<open>nil\<close> (\<open>None\<close>) and a
  slice with elements. Go's \<^verbatim>\<open>int\<close> and \<^verbatim>\<open>time.Duration\<close> are modelled as
  \<open>int\<close>: the code only copies them and compares them with zero.
\<close>

datatype val =
    VNil
  | VInt int
  | VBool bool
  | VString string
  | VStrings "string list option"
  | VList "val list option"
  | VUUID string
  | VMap "string \<Rightarrow> val option"

text \<open>
  A Go map that the code ranges over is given as the list of its entries in the order in
  which the run visits them; its keys are distinct.
\<close>

type_synonym gomap = "(string \<times> val) list"

datatype error =
    InvalidArgumentsError string
  | ErrorString string

text \<open>
  Modelled from the spec: \<^verbatim>\<open>makeInvalidArgumentsError\<close> is not among the source
  files; it builds the error of the taxonomy's invalid-arguments kind with the given
  message.
\<close>

definition makeInvalidArgumentsError :: "string \<Rightarrow> error" where
  "makeInvalidArgumentsError message = InvalidArgumentsError message"

text \<open>\<^verbatim>\<open>errors.New\<close>: a plain error that carries only its message.\<close>

definition errors_New :: "string \<Rightarrow> error" where
  "errors_New message = ErrorString message"

text \<open>The loop \<^verbatim>\<open>for k, v := range src { dst[k] = v }\<close>.\<close>

fun range_assign :: "gomap \<Rightarrow> (string \<rightharpoonup> val) \<Rightarrow> (string \<rightharpoonup> val)" where
  "range_assign [] dst = dst"
| "range_assign ((k, v) # kvs) dst = range_assign kvs (dst(k \<mapsto> v))"

text \<open>The block \<^verbatim>\<open>if raw != nil { for k, v := range raw { dst[k] = v } }\<close>.\<close>

definition raw_overrides :: "gomap option \<Rightarrow> (string \<rightharpoonup> val) \<Rightarrow> (string \<rightharpoonup> val)" where
  "raw_overrides raw dst = (case raw of None \<Rightarrow> dst | Some r \<Rightarrow> range_assign r dst)"

section \<open>Search options\<close>

definition searchScanConsistencyNotSet :: int where
  "searchScanConsistencyNotSet = 0"

definition SearchScanConsistencyNotBounded :: int where
  "SearchScanConsistencyNotBounded = 1"

record SearchHighlightOptions =
  Style :: string
  HighlightFields :: "string list option"

record 'ms SearchOptions =
  ScanConsistency :: int
  Limit :: int
  Skip :: int
  Explain :: bool
  Highlight :: "SearchHighlightOptions option"
  Fields :: "string list option"
  Sort :: "val list option"
  Facets :: "gomap option"
  ConsistentWith :: "'ms option"
  Raw :: "gomap option"
  Timeout :: int

text \<open>
  \<^verbatim>\<open>SearchOptions.toMap\<close>. The conversion \<^verbatim>\<open>toSearchMutationState\<close> of a mutation
  state is not among the source files and is a parameter. The local \<^verbatim>\<open>ctl\<close> is
  \<open>None\<close> while it is the nil map. The function returns \<^verbatim>\<open>data\<close>; the source has no
  statement that stores \<^verbatim>\<open>ctl\<close> in it.
\<close>

definition SearchOptions_toMap ::
  "('ms \<Rightarrow> val) \<Rightarrow> 'ms SearchOptions \<Rightarrow> error + (string \<rightharpoonup> val)" where
  "SearchOptions_toMap toSearchMutationState opts =
    (let data = Map.empty;
         data = data(''size'' \<mapsto> VInt (Limit opts));
         data = data(''from'' \<mapsto> VInt (Skip opts));
         data = data(''explain'' \<mapsto> VBool (Explain opts));
         data = data(''fields'' \<mapsto> VStrings (Fields opts));
         data = data(''sort'' \<mapsto> VList (Sort opts));
         data = (case Highlight opts of
                   None \<Rightarrow> data
                 | Some h \<Rightarrow>
                     (let highlight = Map.empty;
                          highlight = highlight(''style'' \<mapsto> VString (Style h));
                          highlight = highlight(''fields'' \<mapsto> VStrings (HighlightFields h))
                      in data(''highlight'' \<mapsto> VMap highlight)));
         data = (case Facets opts of
                   None \<Rightarrow> data
                 | Some fs \<Rightarrow> data(''facets'' \<mapsto> VMap (range_assign fs Map.empty)))
     in if ScanConsistency opts \<noteq> 0 \<and> ConsistentWith opts \<noteq> None
        then Inl (makeInvalidArgumentsError
                    ''ScanConsistency and ConsistentWith must be used exclusively'')
        else
          (let ctl = None
           in case (if ScanConsistency opts \<noteq> searchScanConsistencyNotSet
                    then (let consistency = Map.empty
                          in if ScanConsistency opts = SearchScanConsistencyNotBounded
                             then (let consistency =
                                         consistency(''level'' \<mapsto> VString ''not_bounded'');
                                       ctl = (case ctl of None \<Rightarrow> Map.empty | Some c \<Rightarrow> c)
                                   in Inr (Some (ctl(''consistency'' \<mapsto> VMap consistency))))
                             else Inl (makeInvalidArgumentsError
                                         ''unexpected consistency option''))
                    else Inr ctl) of
                Inl e \<Rightarrow> Inl e
              | Inr ctl \<Rightarrow>
                  (let ctl =
                         (case ConsistentWith opts of
                            None \<Rightarrow> ctl
                          | Some ms \<Rightarrow>
                              (let consistency = Map.empty;
                                   consistency = consistency(''level'' \<mapsto> VString ''at_plus'');
                                   consistency =
                                     consistency(''vectors'' \<mapsto> toSearchMutationState ms);
                                   ctl = (case ctl of None \<Rightarrow> Map.empty | Some c \<Rightarrow> c)
                               in Some (ctl(''consistency'' \<mapsto> VMap consistency))));
                       data = raw_overrides (Raw opts) data
                   in Inr data)))"

section \<open>Analytics options\<close>

text \<open>\<^verbatim>\<open>strings.HasPrefix\<close>.\<close>

definition HasPrefix :: "string \<Rightarrow> string \<Rightarrow> bool" where
  "HasPrefix s pre = (length pre \<le> length s \<and> take (length pre) s = pre)"

record AnalyticsOptions =
  ServerSideTimeout :: int
  ClientContextID :: string
  AnalyticsRaw :: "gomap option"
  Priority :: bool
  PositionalParameters :: "val list option"
  NamedParameters :: "gomap option"
  ReadOnly :: bool

text \<open>The loop over \<^verbatim>\<open>opts.NamedParameters\<close>.\<close>

fun named_assign :: "gomap \<Rightarrow> (string \<rightharpoonup> val) \<Rightarrow> (string \<rightharpoonup> val)" where
  "named_assign [] execOpts = execOpts"
| "named_assign ((key, value) # kvs) execOpts =
     (let key = (if \<not> HasPrefix key ''$'' then ''$'' @ key else key)
      in named_assign kvs (execOpts(key \<mapsto> value)))"

text \<open>
  \<^verbatim>\<open>AnalyticsOptions.toMap\<close>. Two library calls are parameters: \<open>durationString\<close> is
  \<^verbatim>\<open>time.Duration.String\<close>, and \<open>newUUID\<close> is the value that \<^verbatim>\<open>uuid.New()\<close>
  draws in this run.
\<close>

definition AnalyticsOptions_toMap ::
  "(int \<Rightarrow> string) \<Rightarrow> string \<Rightarrow> AnalyticsOptions \<Rightarrow> string \<Rightarrow> error + (string \<rightharpoonup> val)" where
  "AnalyticsOptions_toMap durationString newUUID opts statement =
    (let execOpts = Map.empty;
         execOpts = execOpts(''statement'' \<mapsto> VString statement);
         execOpts = (if ServerSideTimeout opts \<noteq> 0
                     then execOpts(''timeout'' \<mapsto> VString (durationString (ServerSideTimeout opts)))
                     else execOpts);
         execOpts = (if ClientContextID opts = ''''
                     then execOpts(''client_context_id'' \<mapsto> VUUID newUUID)
                     else execOpts(''client_context_id'' \<mapsto> VString (ClientContextID opts)));
         execOpts = (if Priority opts then execOpts(''priority'' \<mapsto> VInt (- 1)) else execOpts)
     in if PositionalParameters opts \<noteq> None \<and> NamedParameters opts \<noteq> None
        then Inl (errors_New ''Positional and named parameters must be used exclusively'')
        else
          (let execOpts = (case PositionalParameters opts of
                             None \<Rightarrow> execOpts
                           | Some ps \<Rightarrow> execOpts(''args'' \<mapsto> VList (Some ps)));
               execOpts = (case NamedParameters opts of
                             None \<Rightarrow> execOpts
                           | Some np \<Rightarrow> named_assign np execOpts);
               execOpts = raw_overrides (AnalyticsRaw opts) execOpts;
               execOpts = (if ReadOnly opts then execOpts(''readonly'' \<mapsto> VBool True)
                           else execOpts)
           in Inr execOpts))"

section \<open>Cluster: timeouts resolved by Connect\<close>

text \<open>\<^verbatim>\<open>time.Millisecond\<close>, in nanoseconds.\<close>

definition Millisecond :: int where
  "Millisecond = 1000000"

record ClusterOptions =
  ConnectTimeout :: int
  KVTimeout :: int
  ViewTimeout :: int
  QueryTimeout :: int
  AnalyticsTimeout :: int
  SearchTimeout :: int
  ManagementTimeout :: int

text \<open>The timeout fields of the \<^verbatim>\<open>stateBlock\<close> that \<^verbatim>\<open>Connect\<close> builds.\<close>

record stateBlock =
  sb_ConnectTimeout :: int
  sb_QueryTimeout :: int
  sb_AnalyticsTimeout :: int
  sb_SearchTimeout :: int
  sb_ViewTimeout :: int
  sb_KvTimeout :: int
  sb_ManagementTimeout :: int

text \<open>
  The part of \<^verbatim>\<open>Connect\<close> that resolves the timeouts and stores them in the cluster's
  state block. The rest of \<^verbatim>\<open>Connect\<close> (and \<^verbatim>\<open>parseExtraConnStrOptions\<close>) never
  writes \<^verbatim>\<open>ManagementTimeout\<close>.
\<close>

definition Connect_stateBlock :: "ClusterOptions \<Rightarrow> stateBlock" where
  "Connect_stateBlock opts =
    (let connectTimeout = 10000 * Millisecond;
         kvTimeout = 2500 * Millisecond;
         viewTimeout = 75000 * Millisecond;
         queryTimeout = 75000 * Millisecond;
         analyticsTimeout = 75000 * Millisecond;
         searchTimeout = 75000 * Millisecond;
         managementTimeout = 75000 * Millisecond;
         connectTimeout = (if ConnectTimeout opts > 0 then ConnectTimeout opts else connectTimeout);
         kvTimeout = (if KVTimeout opts > 0 then KVTimeout opts else kvTimeout);
         viewTimeout = (if ViewTimeout opts > 0 then ViewTimeout opts else viewTimeout);
         queryTimeout = (if QueryTimeout opts > 0 then QueryTimeout opts else queryTimeout);
         analyticsTimeout =
           (if AnalyticsTimeout opts > 0 then AnalyticsTimeout opts else analyticsTimeout);
         searchTimeout = (if SearchTimeout opts > 0 then SearchTimeout opts else searchTimeout);
         managementTimeout =
           (if ManagementTimeout opts > 0 then SearchTimeout opts else managementTimeout)
     in \<lparr> sb_ConnectTimeout = connectTimeout,
          sb_QueryTimeout = queryTimeout,
          sb_AnalyticsTimeout = analyticsTimeout,
          sb_SearchTimeout = searchTimeout,
          sb_ViewTimeout = viewTimeout,
          sb_KvTimeout = kvTimeout,
          sb_ManagementTimeout = managementTimeout \<rparr>)"

section \<open>Cluster: the registry of clients\<close>

text \<open>
  A \<^verbatim>\<open>client\<close> is a reference to an object; \<open>cid\<close> is the reference and the
  cluster state holds the store of the objects.
\<close>

type_synonym cid = nat

text \<open>
  Modelled from the spec: the implementation of the \<^verbatim>\<open>client\<close> interface is not
  among the source files. The state of a client object is what its accessors
  \<^verbatim>\<open>connected()\<close>, \<^verbatim>\<open>getBootstrapError()\<close> and \<^verbatim>\<open>supportsGCCCP()\<close> report.
\<close>

record client =
  connected :: bool
  bootstrapError :: "error option"
  supportsGCCCP :: bool

record clientStateBlock =
  BucketName :: string

text \<open>
  The network side is a parameter: each call of the transport on a client object answers
  with an optional error and the object's next state, and \<open>t_newClient\<close> is the state of
  an object that \<^verbatim>\<open>newClient\<close> has just built.
\<close>

record transport =
  t_newClient :: "clientStateBlock \<Rightarrow> client"
  t_buildConfig :: "cid \<Rightarrow> client \<Rightarrow> error option \<times> client"
  t_connect :: "cid \<Rightarrow> client \<Rightarrow> error option \<times> client"
  t_selectBucket :: "cid \<Rightarrow> string \<Rightarrow> client \<Rightarrow> error option \<times> client"
  t_close :: "cid \<Rightarrow> client \<Rightarrow> error option \<times> client"

text \<open>
  The calls made through the \<^verbatim>\<open>client\<close> interface are logged in order, each with
  the error it returned.
\<close>

datatype call =
    CallBuildConfig cid "error option"
  | CallConnect cid "error option"
  | CallSelectBucket cid string "error option"
  | CallClose cid "error option"

text \<open>
  \<open>connections\<close> is the map \<^verbatim>\<open>c.connections\<close> as the list of its entries in the
  order in which a \<^verbatim>\<open>range\<close> visits them. \<open>nextClient\<close> is the next unused object
  reference.
\<close>

record Cluster =
  connections :: "(string \<times> cid) list"
  clusterClient :: "cid option"
  Tracer :: "nat option"
  clients :: "cid \<Rightarrow> client"
  nextClient :: cid
  calls :: "call list"

record Bucket =
  sb_clientStateBlock :: clientStateBlock
  sb_cachedClient :: "cid option"

text \<open>
  Modelled from the spec: \<^verbatim>\<open>setBootstrapError\<close> of the \<^verbatim>\<open>client\<close> interface
  records the error as the bootstrap error of that connection.
\<close>

definition setBootstrapError :: "cid \<Rightarrow> error \<Rightarrow> Cluster \<Rightarrow> Cluster" where
  "setBootstrapError cli err c =
     c\<lparr>clients := (clients c)(cli := (clients c cli)\<lparr>bootstrapError := Some err\<rparr>)\<rparr>"

text \<open>
  The calls \<^verbatim>\<open>buildConfig\<close>, \<^verbatim>\<open>connect\<close>, \<^verbatim>\<open>selectBucket\<close> and \<^verbatim>\<open>close\<close> on a
  client: the transport answers, the object takes its next state, and the call is logged.
\<close>

definition client_buildConfig :: "transport \<Rightarrow> cid \<Rightarrow> Cluster \<Rightarrow> error option \<times> Cluster" where
  "client_buildConfig t cli c =
     (let (err, st) = t_buildConfig t cli (clients c cli)
      in (err, c\<lparr>clients := (clients c)(cli := st), calls := calls c @ [CallBuildConfig cli err]\<rparr>))"

definition client_connect :: "transport \<Rightarrow> cid \<Rightarrow> Cluster \<Rightarrow> error option \<times> Cluster" where
  "client_connect t cli c =
     (let (err, st) = t_connect t cli (clients c cli)
      in (err, c\<lparr>clients := (clients c)(cli := st), calls := calls c @ [CallConnect cli err]\<rparr>))"

definition client_selectBucket ::
  "transport \<Rightarrow> cid \<Rightarrow> string \<Rightarrow> Cluster \<Rightarrow> error option \<times> Cluster" where
  "client_selectBucket t cli bucketName c =
     (let (err, st) = t_selectBucket t cli bucketName (clients c cli)
      in (err, c\<lparr>clients := (clients c)(cli := st),
                 calls := calls c @ [CallSelectBucket cli bucketName err]\<rparr>))"

definition client_close :: "transport \<Rightarrow> cid \<Rightarrow> Cluster \<Rightarrow> error option \<times> Cluster" where
  "client_close t cli c =
     (let (err, st) = t_close t cli (clients c cli)
      in (err, c\<lparr>clients := (clients c)(cli := st), calls := calls c @ [CallClose cli err]\<rparr>))"

text \<open>
  Modelled from the spec: \<^verbatim>\<open>newClient\<close> is not among the source files; it constructs a
  new connection object for the identity, so it returns a reference not in use before.
\<close>

definition newClient :: "transport \<Rightarrow> clientStateBlock \<Rightarrow> Cluster \<Rightarrow> cid \<times> Cluster" where
  "newClient t sb c =
     (nextClient c,
      c\<lparr>clients := (clients c)(nextClient c := t_newClient t sb),
        nextClient := Suc (nextClient c)\<rparr>)"

text \<open>
  Modelled from the spec: \<^verbatim>\<open>newBucket\<close> is not among the source files. A bucket
  carries the client state block of its name, and no cached client yet.
\<close>

definition newBucket :: "string \<Rightarrow> Bucket" where
  "newBucket bucketName =
     \<lparr> sb_clientStateBlock = \<lparr> BucketName = bucketName \<rparr>, sb_cachedClient = None \<rparr>"

text \<open>
  Modelled from the spec: \<^verbatim>\<open>Bucket.hash\<close> and \<^verbatim>\<open>clientStateBlock.Hash\<close> are not
  among the source files. The connection identity is one deterministic hash of the
  client state block, the parameter \<open>Hash\<close>; it is both the registry key of the bucket
  and the key that \<^verbatim>\<open>getClient\<close> looks up.
\<close>

definition Bucket_hash :: "(clientStateBlock \<Rightarrow> string) \<Rightarrow> Bucket \<Rightarrow> string" where
  "Bucket_hash Hash b = Hash (sb_clientStateBlock b)"

text \<open>
  Modelled from the spec: \<^verbatim>\<open>Bucket.cacheClient\<close> is not among the source files; the
  bucket keeps the connection it was handed.
\<close>

definition cacheClient :: "cid \<Rightarrow> Bucket \<Rightarrow> Bucket" where
  "cacheClient cli b = b\<lparr>sb_cachedClient := Some cli\<rparr>"

definition takeClusterClient :: "Cluster \<Rightarrow> cid option \<times> Cluster" where
  "takeClusterClient c =
     (case clusterClient c of
        Some cli \<Rightarrow> (Some cli, c\<lparr>clusterClient := None\<rparr>)
      | None \<Rightarrow> (None, c))"

definition getClient ::
  "(clientStateBlock \<Rightarrow> string) \<Rightarrow> transport \<Rightarrow> clientStateBlock \<Rightarrow> Cluster \<Rightarrow> cid \<times> Cluster" where
  "getClient Hash t sb c =
     (let hash = Hash sb
      in case map_of (connections c) hash of
           Some cli \<Rightarrow> (cli, c)
         | None \<Rightarrow> newClient t sb c)"

text \<open>
  \<^verbatim>\<open>Cluster.Bucket\<close>. The assignment \<^verbatim>\<open>c.connections[b.hash()] = cli\<close> replaces the
  entry of an existing key and adds one otherwise. The bucket options are only handed to
  \<^verbatim>\<open>newBucket\<close> and are left out.
\<close>

definition Cluster_Bucket ::
  "(clientStateBlock \<Rightarrow> string) \<Rightarrow> transport \<Rightarrow> string \<Rightarrow> Cluster \<Rightarrow> Bucket \<times> Cluster" where
  "Cluster_Bucket Hash t bucketName c =
    (let b = newBucket bucketName;
         (cli, c) = takeClusterClient c;
         (cli, c) =
           (case cli of
              None \<Rightarrow>
                (let (cli, c) = getClient Hash t (sb_clientStateBlock b) c;
                     (err, c) = client_buildConfig t cli c;
                     c = (case err of
                            None \<Rightarrow>
                              (let (err, c) = client_connect t cli c
                               in case err of
                                    Some e \<Rightarrow> setBootstrapError cli e c
                                  | None \<Rightarrow> c)
                          | Some e \<Rightarrow> setBootstrapError cli e c)
                 in (cli, c))
            | Some cli \<Rightarrow>
                (let (err, c) = client_selectBucket t cli bucketName c;
                     c = (case err of
                            Some e \<Rightarrow> setBootstrapError cli e c
                          | None \<Rightarrow> c)
                 in (cli, c)));
         c = c\<lparr>connections := AList.update (Bucket_hash Hash b) cli (connections c)\<rparr>;
         b = cacheClient cli b
     in (b, c))"

text \<open>The loop of \<^verbatim>\<open>randomClient\<close>, which leaves at the first connected client.\<close>

fun randomClient_range ::
  "(cid \<Rightarrow> client) \<Rightarrow> (string \<times> cid) list \<Rightarrow> error option \<Rightarrow> cid option \<times> error option" where
  "randomClient_range h [] firstError = (None, firstError)"
| "randomClient_range h ((k, c) # rest) firstError =
     (if connected (h c) then (Some c, firstError)
      else if firstError = None then randomClient_range h rest (bootstrapError (h c))
      else randomClient_range h rest firstError)"

definition randomClient :: "Cluster \<Rightarrow> error + cid" where
  "randomClient c =
    (if length (connections c) = 0 then Inl (errors_New ''not connected to cluster'')
     else
       (let (randomClient, firstError) = randomClient_range (clients c) (connections c) None
        in case randomClient of
             None \<Rightarrow>
               (case firstError of
                  None \<Rightarrow> Inl (errors_New ''not connected to cluster'')
                | Some e \<Rightarrow> Inl e)
           | Some cli \<Rightarrow> Inr cli))"

definition clusterOrRandomClient :: "Cluster \<Rightarrow> error + cid" where
  "clusterOrRandomClient c =
    (case clusterClient c of
       None \<Rightarrow>
         (case randomClient c of
            Inl err \<Rightarrow> Inl err
          | Inr cli \<Rightarrow> Inr cli)
     | Some cli \<Rightarrow>
         if \<not> supportsGCCCP (clients c cli)
         then Inl (errors_New ''cluster-level operations not supported due to cluster version'')
         else Inr cli)"

text \<open>
  The loop of \<^verbatim>\<open>Cluster.Close\<close> over the entries of \<^verbatim>\<open>c.connections\<close>; it deletes
  the entry it has just visited.
\<close>

fun close_range ::
  "transport \<Rightarrow> (string \<times> cid) list \<Rightarrow> Cluster \<times> error option \<Rightarrow> Cluster \<times> error option" where
  "close_range t [] (c, overallErr) = (c, overallErr)"
| "close_range t ((key, conn) # rest) (c, overallErr) =
     (let (err, c) = client_close t conn c;
          overallErr = (case err of Some e \<Rightarrow> Some e | None \<Rightarrow> overallErr);
          c = c\<lparr>connections := AList.delete key (connections c)\<rparr>
      in close_range t rest (c, overallErr))"

text \<open>
  \<^verbatim>\<open>Cluster.Close\<close>. Releasing the tracer is a call into the tracing layer; here only
  the field is reset.
\<close>

definition Cluster_Close :: "transport \<Rightarrow> Cluster \<Rightarrow> error option \<times> Cluster" where
  "Cluster_Close t c =
    (let overallErr = None;
         (c, overallErr) = close_range t (connections c) (c, overallErr);
         (c, overallErr) =
           (case clusterClient c of
              Some cc \<Rightarrow>
                (let (err, c) = client_close t cc c
                 in (c, case err of Some e \<Rightarrow> Some e | None \<Rightarrow> overallErr))
            | None \<Rightarrow> (c, overallErr));
         c = (case Tracer c of Some tr \<Rightarrow> c\<lparr>Tracer := None\<rparr> | None \<Rightarrow> c)
     in (overallErr, c))"

section \<open>Error enhancement\<close>

text \<open>
  The transport's error types (package \<^verbatim>\<open>gocbcore\<close>) with the fields that
  \<^verbatim>\<open>maybeEnhanceCoreErr\<close> reads, and the domain error types with the fields it writes.
  \<^verbatim>\<open>uint32\<close> is \<open>32 word\<close>, the status code \<open>16 word\<close>. A retry reason is known by
  its string.
\<close>

datatype core_RetryReason = core_RetryReason (core_reason_string: string)

datatype RetryReason = RetryReason (reason_string: string)

record core_ViewErrorDesc =
  cved_SourceNode :: string
  cved_Message :: string

record ViewErrorDesc =
  ved_SourceNode :: string
  ved_Message :: string

record core_N1QLErrorDesc =
  cqed_Code :: "32 word"
  cqed_Message :: string

record QueryErrorDesc =
  qed_Code :: "32 word"
  qed_Message :: string

record core_AnalyticsErrorDesc =
  caed_Code :: "32 word"
  caed_Message :: string

record AnalyticsErrorDesc =
  aed_Code :: "32 word"
  aed_Message :: string

record core_KeyValueError =
  ckv_InnerError :: error
  ckv_StatusCode :: "16 word"
  ckv_BucketName :: string
  ckv_ScopeName :: string
  ckv_CollectionName :: string
  ckv_CollectionID :: "32 word"
  ckv_ErrorName :: string
  ckv_ErrorDescription :: string
  ckv_Opaque :: "32 word"
  ckv_Context :: string
  ckv_Ref :: string
  ckv_RetryReasons :: "core_RetryReason list"
  ckv_RetryAttempts :: "32 word"

record KeyValueError =
  kv_InnerError :: error
  kv_StatusCode :: "16 word"
  kv_BucketName :: string
  kv_ScopeName :: string
  kv_CollectionName :: string
  kv_CollectionID :: "32 word"
  kv_ErrorName :: string
  kv_ErrorDescription :: string
  kv_Opaque :: "32 word"
  kv_Context :: string
  kv_Ref :: string
  kv_RetryReasons :: "RetryReason list"
  kv_RetryAttempts :: "32 word"

record core_ViewError =
  cview_InnerError :: error
  cview_DesignDocumentName :: string
  cview_ViewName :: string
  cview_Errors :: "core_ViewErrorDesc list"
  cview_Endpoint :: string
  cview_RetryReasons :: "core_RetryReason list"
  cview_RetryAttempts :: "32 word"

record ViewError =
  view_InnerError :: error
  view_DesignDocumentName :: string
  view_ViewName :: string
  view_Errors :: "ViewErrorDesc list"
  view_Endpoint :: string
  view_RetryReasons :: "RetryReason list"
  view_RetryAttempts :: "32 word"

record core_N1QLError =
  cquery_InnerError :: error
  cquery_Statement :: string
  cquery_ClientContextID :: string
  cquery_Errors :: "core_N1QLErrorDesc list"
  cquery_Endpoint :: string
  cquery_RetryReasons :: "core_RetryReason list"
  cquery_RetryAttempts :: "32 word"

record QueryError =
  query_InnerError :: error
  query_Statement :: string
  query_ClientContextID :: string
  query_Errors :: "QueryErrorDesc list"
  query_Endpoint :: string
  query_RetryReasons :: "RetryReason list"
  query_RetryAttempts :: "32 word"

record core_AnalyticsError =
  canalytics_InnerError :: error
  canalytics_Statement :: string
  canalytics_ClientContextID :: string
  canalytics_Errors :: "core_AnalyticsErrorDesc list"
  canalytics_Endpoint :: string
  canalytics_RetryReasons :: "core_RetryReason list"
  canalytics_RetryAttempts :: "32 word"

record AnalyticsError =
  analytics_InnerError :: error
  analytics_Statement :: string
  analytics_ClientContextID :: string
  analytics_Errors :: "AnalyticsErrorDesc list"
  analytics_Endpoint :: string
  analytics_RetryReasons :: "RetryReason list"
  analytics_RetryAttempts :: "32 word"

record core_HTTPError =
  chttp_InnerError :: error
  chttp_UniqueID :: string
  chttp_Endpoint :: string
  chttp_RetryReasons :: "core_RetryReason list"
  chttp_RetryAttempts :: "32 word"

record HTTPError =
  http_InnerError :: error
  http_UniqueID :: string
  http_Endpoint :: string
  http_RetryReasons :: "RetryReason list"
  http_RetryAttempts :: "32 word"

text \<open>
  A Go \<^verbatim>\<open>error\<close> value by its dynamic type: one of the five transport types, one of
  the five domain types, any other error, or the nil error.
\<close>

datatype go_error =
    Core_KeyValueError core_KeyValueError
  | Core_ViewError core_ViewError
  | Core_N1QLError core_N1QLError
  | Core_AnalyticsError core_AnalyticsError
  | Core_HTTPError core_HTTPError
  | Gocb_KeyValueError KeyValueError
  | Gocb_ViewError ViewError
  | Gocb_QueryError QueryError
  | Gocb_AnalyticsError AnalyticsError
  | Gocb_HTTPError HTTPError
  | Other_error error
  | Nil_error

text \<open>
  Modelled from the spec: \<^verbatim>\<open>translateCoreRetryReasons\<close> is not among the source
  files. The spec has the transport's retry-reason list re-expressed in the domain's
  retry-reason type, string for string.
\<close>

definition translateCoreRetryReasons :: "core_RetryReason list \<Rightarrow> RetryReason list" where
  "translateCoreRetryReasons reasons =
     map (\<lambda>r. RetryReason (core_reason_string r)) reasons"

text \<open>
  Modelled from the spec: \<^verbatim>\<open>translateCoreViewErrorDesc\<close> is not among the source
  files. The spec has the inner list of sub-errors re-expressed as the corresponding
  domain sub-error type.
\<close>

definition translateCoreViewErrorDesc :: "core_ViewErrorDesc list \<Rightarrow> ViewErrorDesc list" where
  "translateCoreViewErrorDesc descs =
     map (\<lambda>d. \<lparr> ved_SourceNode = cved_SourceNode d, ved_Message = cved_Message d \<rparr>) descs"

text \<open>
  Modelled from the spec: \<^verbatim>\<open>translateCoreQueryErrorDesc\<close> is not among the source
  files; as for the view sub-errors.
\<close>

definition translateCoreQueryErrorDesc :: "core_N1QLErrorDesc list \<Rightarrow> QueryErrorDesc list" where
  "translateCoreQueryErrorDesc descs =
     map (\<lambda>d. \<lparr> qed_Code = cqed_Code d, qed_Message = cqed_Message d \<rparr>) descs"

text \<open>
  Modelled from the spec: \<^verbatim>\<open>translateCoreAnalyticsErrorDesc\<close> is not among the source
  files; as for the view sub-errors.
\<close>

definition translateCoreAnalyticsErrorDesc ::
  "core_AnalyticsErrorDesc list \<Rightarrow> AnalyticsErrorDesc list" where
  "translateCoreAnalyticsErrorDesc descs =
     map (\<lambda>d. \<lparr> aed_Code = caed_Code d, aed_Message = caed_Message d \<rparr>) descs"

text \<open>\<^verbatim>\<open>maybeEnhanceCoreErr\<close>: the type tests in the order of the source.\<close>

fun maybeEnhanceCoreErr :: "go_error \<Rightarrow> go_error" where
  "maybeEnhanceCoreErr (Core_KeyValueError kvErr) =
     Gocb_KeyValueError
       \<lparr> kv_InnerError = ckv_InnerError kvErr,
         kv_StatusCode = ckv_StatusCode kvErr,
         kv_BucketName = ckv_BucketName kvErr,
         kv_ScopeName = ckv_ScopeName kvErr,
         kv_CollectionName = ckv_CollectionName kvErr,
         kv_CollectionID = ckv_CollectionID kvErr,
         kv_ErrorName = ckv_ErrorName kvErr,
         kv_ErrorDescription = ckv_ErrorDescription kvErr,
         kv_Opaque = ckv_Opaque kvErr,
         kv_Context = ckv_Context kvErr,
         kv_Ref = ckv_Ref kvErr,
         kv_RetryReasons = translateCoreRetryReasons (ckv_RetryReasons kvErr),
         kv_RetryAttempts = ckv_RetryAttempts kvErr \<rparr>"
| "maybeEnhanceCoreErr (Core_ViewError viewErr) =
     Gocb_ViewError
       \<lparr> view_InnerError = cview_InnerError viewErr,
         view_DesignDocumentName = cview_DesignDocumentName viewErr,
         view_ViewName = cview_ViewName viewErr,
         view_Errors = translateCoreViewErrorDesc (cview_Errors viewErr),
         view_Endpoint = cview_Endpoint viewErr,
         view_RetryReasons = translateCoreRetryReasons (cview_RetryReasons viewErr),
         view_RetryAttempts = cview_RetryAttempts viewErr \<rparr>"
| "maybeEnhanceCoreErr (Core_N1QLError queryErr) =
     Gocb_QueryError
       \<lparr> query_InnerError = cquery_InnerError queryErr,
         query_Statement = cquery_Statement queryErr,
         query_ClientContextID = cquery_ClientContextID queryErr,
         query_Errors = translateCoreQueryErrorDesc (cquery_Errors queryErr),
         query_Endpoint = cquery_Endpoint queryErr,
         query_RetryReasons = translateCoreRetryReasons (cquery_RetryReasons queryErr),
         query_RetryAttempts = cquery_RetryAttempts queryErr \<rparr>"
| "maybeEnhanceCoreErr (Core_AnalyticsError analyticsErr) =
     Gocb_AnalyticsError
       \<lparr> analytics_InnerError = canalytics_InnerError analyticsErr,
         analytics_Statement = canalytics_Statement analyticsErr,
         analytics_ClientContextID = canalytics_ClientContextID analyticsErr,
         analytics_Errors = translateCoreAnalyticsErrorDesc (canalytics_Errors analyticsErr),
         analytics_Endpoint = canalytics_Endpoint analyticsErr,
         analytics_RetryReasons = translateCoreRetryReasons (canalytics_RetryReasons analyticsErr),
         analytics_RetryAttempts = canalytics_RetryAttempts analyticsErr \<rparr>"
| "maybeEnhanceCoreErr (Core_HTTPError httpErr) =
     Gocb_HTTPError
       \<lparr> http_InnerError = chttp_InnerError httpErr,
         http_UniqueID = chttp_UniqueID httpErr,
         http_Endpoint = chttp_Endpoint httpErr,
         http_RetryReasons = translateCoreRetryReasons (chttp_RetryReasons httpErr),
         http_RetryAttempts = chttp_RetryAttempts httpErr \<rparr>"
| "maybeEnhanceCoreErr err = err"

section \<open>Notions of the specification\<close>

text \<open>
  The definitions of this section follow the words of the specification; the theorems
  compare them with the functions above.
\<close>

text \<open>The key under which a named parameter is emitted: prefixed with \<^verbatim>\<open>$\<close> if not
  already prefixed.\<close>

definition dollar_key :: "string \<Rightarrow> string" where
  "dollar_key k = (if HasPrefix k ''$'' then k else ''$'' @ k)"

text \<open>The keys of an optional Go map.\<close>

definition map_keys :: "gomap option \<Rightarrow> string set" where
  "map_keys m = (case m of None \<Rightarrow> {} | Some kvs \<Rightarrow> fst ` set kvs)"

text \<open>The first and the last error in a sequence of results.\<close>

fun first_error :: "error option list \<Rightarrow> error option" where
  "first_error [] = None"
| "first_error (r # rs) = (case r of Some e \<Rightarrow> Some e | None \<Rightarrow> first_error rs)"

fun last_error :: "error option list \<Rightarrow> error option" where
  "last_error [] = None"
| "last_error (r # rs) = (case last_error rs of Some e \<Rightarrow> Some e | None \<Rightarrow> r)"

text \<open>The result that a logged call returned.\<close>

fun call_result :: "call \<Rightarrow> error option" where
  "call_result (CallBuildConfig cli r) = r"
| "call_result (CallConnect cli r) = r"
| "call_result (CallSelectBucket cli n r) = r"
| "call_result (CallClose cli r) = r"

text \<open>The client that a logged close call closed.\<close>

fun close_target :: "call \<Rightarrow> cid option" where
  "close_target (CallClose cli r) = Some cli"
| "close_target other = None"

text \<open>
  Routing of a cluster-scoped request as the specification words it: the floating client
  if it is there, provided it supports cluster-level operations; else the first
  connected registry entry; else the first recorded bootstrap error; else the
  not-connected error.
\<close>

definition first_connected :: "(cid \<Rightarrow> client) \<Rightarrow> (string \<times> cid) list \<Rightarrow> cid option" where
  "first_connected h conns =
     (case filter (\<lambda>cli. connected (h cli)) (map snd conns) of
        [] \<Rightarrow> None
      | cli # rest \<Rightarrow> Some cli)"

definition first_bootstrap_error :: "(cid \<Rightarrow> client) \<Rightarrow> (string \<times> cid) list \<Rightarrow> error option" where
  "first_bootstrap_error h conns = first_error (map (\<lambda>kc. bootstrapError (h (snd kc))) conns)"

definition route_spec :: "Cluster \<Rightarrow> error + cid" where
  "route_spec c =
    (case clusterClient c of
       Some cli \<Rightarrow>
         if supportsGCCCP (clients c cli) then Inr cli
         else Inl (ErrorString ''cluster-level operations not supported due to cluster version'')
     | None \<Rightarrow>
         (case first_connected (clients c) (connections c) of
            Some cli \<Rightarrow> Inr cli
          | None \<Rightarrow>
              (case first_bootstrap_error (clients c) (connections c) of
                 Some e \<Rightarrow> Inl e
               | None \<Rightarrow> Inl (ErrorString ''not connected to cluster''))))"

text \<open>
  The registry is well formed when every object reference in use was handed out before,
  and the floating client is not a registry entry.
\<close>

definition registry_ok :: "Cluster \<Rightarrow> bool" where
  "registry_ok c =
    (list_all (\<lambda>kc. snd kc < nextClient c) (connections c)
     \<and> (case clusterClient c of
          None \<Rightarrow> True
        | Some cli \<Rightarrow> cli < nextClient c \<and> cli \<notin> snd ` set (connections c)))"

text \<open>
  A caller that acquires buckets one after the other: the bucket handles in the order of
  the calls, and the final cluster state.
\<close>

fun Bucket_seq ::
  "(clientStateBlock \<Rightarrow> string) \<Rightarrow> transport \<Rightarrow> string list \<Rightarrow> Cluster \<Rightarrow> Bucket list \<times> Cluster" where
  "Bucket_seq Hash t [] c = ([], c)"
| "Bucket_seq Hash t (bucketName # rest) c =
     (let (b, c) = Cluster_Bucket Hash t bucketName c;
          (bs, c) = Bucket_seq Hash t rest c
      in (b # bs, c))"

text \<open>The bucket name that a handle was acquired for.\<close>

definition Bucket_name :: "Bucket \<Rightarrow> string" where
  "Bucket_name b = BucketName (sb_clientStateBlock b)"

section \<open>A concrete cluster\<close>

text \<open>
  A cluster as \<^verbatim>\<open>Connect\<close> leaves it after three buckets were registered by hand:
  the floating client is object 0, the registry holds the objects 1, 2 and 3, and the
  identity hash of a client state block is its bucket name. In the example transport,
  closing the objects 1 and 2 fails, and selecting the bucket \<^verbatim>\<open>missing\<close> fails.
\<close>

definition example_hash :: "clientStateBlock \<Rightarrow> string" where
  "example_hash sb = BucketName sb"

definition example_close_error :: "cid \<Rightarrow> error option" where
  "example_close_error cli =
     (if cli = 1 then Some (ErrorString ''close a failed'')
      else if cli = 2 then Some (ErrorString ''close b failed'')
      else None)"

definition example_transport :: transport where
  "example_transport =
     \<lparr> t_newClient = (\<lambda>sb. \<lparr> connected = False, bootstrapError = None, supportsGCCCP = False \<rparr>),
       t_buildConfig = (\<lambda>cli st. (None, st)),
       t_connect = (\<lambda>cli st. (None, st\<lparr>connected := True\<rparr>)),
       t_selectBucket = (\<lambda>cli bucketName st.
          (if bucketName = ''missing'' then Some (ErrorString ''bucket not found'') else None,
           st)),
       t_close = (\<lambda>cli st. (example_close_error cli, st\<lparr>connected := False\<rparr>)) \<rparr>"

definition example_cluster :: Cluster where
  "example_cluster =
     \<lparr> connections = [(''a'', 1), (''b'', 2), (''c'', 3)],
       clusterClient = Some 0,
       Tracer = Some 0,
       clients = (\<lambda>cli. \<lparr> connected = True, bootstrapError = None, supportsGCCCP = True \<rparr>),
       nextClient = 4,
       calls = [] \<rparr>"

section \<open>Concrete analytics options\<close>

text \<open>
  Analytics options with named parameters only: the raw overrides, the client context id
  and the named parameters (in the order in which the run visits them) are given, every
  other option has its zero value. The example duration formatter answers \<^verbatim>\<open>1s\<close>.
\<close>

definition example_durationString :: "int \<Rightarrow> string" where
  "example_durationString d = ''1s''"

definition example_analytics :: "gomap option \<Rightarrow> string \<Rightarrow> gomap \<Rightarrow> AnalyticsOptions" where
  "example_analytics raw contextID named =
     \<lparr> ServerSideTimeout = 0, ClientContextID = contextID, AnalyticsRaw = raw,
       Priority = False, PositionalParameters = None, NamedParameters = Some named,
       ReadOnly = False \<rparr>"

section \<open>Facts about the map loops\<close>

lemma range_assign_notin: "k \<notin> fst ` set kvs \<Longrightarrow> range_assign kvs dst k = dst k"
  by (induction kvs arbitrary: dst) auto

lemma range_assign_in:
  "distinct (map fst kvs) \<Longrightarrow> (k, v) \<in> set kvs \<Longrightarrow> range_assign kvs dst k = Some v"
  by (induction kvs arbitrary: dst) (auto simp: range_assign_notin)

lemma range_assign_dom: "dom (range_assign kvs dst) = dom dst \<union> fst ` set kvs"
proof (induction kvs arbitrary: dst)
  case Nil
  then show ?case by simp
next
  case (Cons kv kvs)
  obtain k v where kv: "kv = (k, v)" by (cases kv)
  have "dom (range_assign kvs (dst(k \<mapsto> v))) = dom (dst(k \<mapsto> v)) \<union> fst ` set kvs"
    by (rule Cons.IH)
  then show ?case using kv by auto
qed

lemma named_assign_Cons:
  "named_assign ((k, v) # kvs) dst = named_assign kvs (dst(dollar_key k \<mapsto> v))"
  by (simp add: dollar_key_def Let_def)

lemma named_assign_notin:
  "k' \<notin> dollar_key ` fst ` set kvs \<Longrightarrow> named_assign kvs dst k' = dst k'"
proof (induction kvs arbitrary: dst)
  case Nil
  then show ?case by simp
next
  case (Cons kv kvs)
  obtain k0 v0 where kv: "kv = (k0, v0)" by (cases kv)
  from Cons.prems kv have ne: "k' \<noteq> dollar_key k0" and rest: "k' \<notin> dollar_key ` fst ` set kvs"
    by auto
  have "named_assign kvs (dst(dollar_key k0 \<mapsto> v0)) k' = (dst(dollar_key k0 \<mapsto> v0)) k'"
    using rest by (rule Cons.IH)
  with ne kv show ?case by (simp add: named_assign_Cons del: named_assign.simps)
qed

lemma named_assign_in:
  "distinct (map dollar_key (map fst kvs)) \<Longrightarrow> (k, v) \<in> set kvs
     \<Longrightarrow> named_assign kvs dst (dollar_key k) = Some v"
proof (induction kvs arbitrary: dst)
  case Nil
  then show ?case by simp
next
  case (Cons kv kvs)
  obtain k0 v0 where kv: "kv = (k0, v0)" by (cases kv)
  show ?case
  proof (cases "(k, v) = kv")
    case True
    with Cons.prems kv have "dollar_key k \<notin> dollar_key ` fst ` set kvs" by auto
    then have "named_assign kvs (dst(dollar_key k0 \<mapsto> v0)) (dollar_key k) = (dst(dollar_key k0 \<mapsto> v0)) (dollar_key k)"
      by (rule named_assign_notin)
    with True kv show ?thesis by (simp add: named_assign_Cons del: named_assign.simps)
  next
    case False
    with Cons.prems have "(k, v) \<in> set kvs" "distinct (map dollar_key (map fst kvs))" by auto
    then have "named_assign kvs (dst(dollar_key k0 \<mapsto> v0)) (dollar_key k) = Some v"
      by (rule Cons.IH[rotated])
    then show ?thesis using kv by (simp add: named_assign_Cons del: named_assign.simps)
  qed
qed

lemma named_assign_dom: "dom (named_assign kvs dst) = dom dst \<union> dollar_key ` fst ` set kvs"
proof (induction kvs arbitrary: dst)
  case Nil
  then show ?case by simp
next
  case (Cons kv kvs)
  obtain k0 v0 where kv: "kv = (k0, v0)" by (cases kv)
  have "dom (named_assign kvs (dst(dollar_key k0 \<mapsto> v0))) = dom (dst(dollar_key k0 \<mapsto> v0)) \<union> dollar_key ` fst ` set kvs"
    by (rule Cons.IH)
  then show ?case using kv by (simp add: named_assign_Cons del: named_assign.simps)
qed

lemma raw_overrides_notin: "k \<notin> map_keys raw \<Longrightarrow> raw_overrides raw dst k = dst k"
  by (simp add: raw_overrides_def map_keys_def range_assign_notin split: option.splits)

lemma raw_overrides_in:
  "raw = Some r \<Longrightarrow> distinct (map fst r) \<Longrightarrow> (k, v) \<in> set r \<Longrightarrow> raw_overrides raw dst k = Some v"
  by (simp add: raw_overrides_def range_assign_in)

lemma raw_overrides_dom: "dom (raw_overrides raw dst) = dom dst \<union> map_keys raw"
  by (simp add: raw_overrides_def map_keys_def range_assign_dom split: option.splits)

lemma dollar_key_not_readonly: "dollar_key k \<noteq> ''readonly''"
  by (cases k) (auto simp: dollar_key_def HasPrefix_def)

lemma analytics_ok:
  "PositionalParameters opts = None \<or> NamedParameters opts = None \<Longrightarrow> \<exists>e. AnalyticsOptions_toMap ds u opts st = Inr e"
  by (auto simp: AnalyticsOptions_toMap_def Let_def)

lemma analytics_named_shape:
  assumes "PositionalParameters opts = None" "NamedParameters opts = Some np"
  shows "\<exists>base. AnalyticsOptions_toMap ds u opts st =
           Inr (let e = raw_overrides (AnalyticsRaw opts) (named_assign np base)
                in if ReadOnly opts then e(''readonly'' \<mapsto> VBool True) else e)"
  using assms by (auto simp add: AnalyticsOptions_toMap_def Let_def)

lemma analytics_named_dom:
  assumes "PositionalParameters opts = None" "NamedParameters opts = Some np" "AnalyticsOptions_toMap ds u opts st = Inr e" "(k,v) \<in> set np"
  shows "dollar_key k \<in> dom e"
proof -
  have mem: "dollar_key k \<in> dollar_key ` fst ` set np" using assms(4) by force
  from analytics_named_shape[OF assms(1,2), of ds u st] assms(3)
  obtain base where "e = (let e = raw_overrides (AnalyticsRaw opts) (named_assign np base)
                in if ReadOnly opts then e(''readonly'' \<mapsto> VBool True) else e)" by auto
  then show ?thesis using mem
    by (simp add: Let_def raw_overrides_dom named_assign_dom)
qed

lemma analytics_named_val:
  assumes "PositionalParameters opts = None" "NamedParameters opts = Some np" "AnalyticsOptions_toMap ds u opts st = Inr e" "(k,v) \<in> set np"
   "distinct (map dollar_key (map fst np))" "dollar_key k \<notin> map_keys (AnalyticsRaw opts)"
  shows "e (dollar_key k) = Some v"
proof -
  from analytics_named_shape[OF assms(1,2), of ds u st] assms(3)
  obtain base where "e = (let e = raw_overrides (AnalyticsRaw opts) (named_assign np base)
                in if ReadOnly opts then e(''readonly'' \<mapsto> VBool True) else e)" by auto
  then show ?thesis
    using named_assign_in[OF assms(5) assms(4)] dollar_key_not_readonly[of k] assms(6)
    by (simp add: Let_def raw_overrides_notin)
qed

lemma analytics_same:
  "AnalyticsOptions_toMap ds u (opts\<lparr>NamedParameters := Some [(''a'', v)]\<rparr>) st
     = AnalyticsOptions_toMap ds u (opts\<lparr>NamedParameters := Some [(''$a'', v)]\<rparr>) st"
  by (simp add: AnalyticsOptions_toMap_def Let_def HasPrefix_def)

lemma search_raw_last:
  assumes "SearchOptions_toMap toSearchMutationState opts = Inr data"
    and "Raw opts = Some r" and "distinct (map fst r)" and "(k, v) \<in> set r"
  shows "data k = Some v"
  using assms
  by (auto simp add: SearchOptions_toMap_def Let_def raw_overrides_in
        split: if_splits sum.splits)

lemma search_no_ctl:
  assumes "SearchOptions_toMap toSearchMutationState opts = Inr data"
    and "''ctl'' \<notin> map_keys (Raw opts)"
  shows "data ''ctl'' = None"
  using assms
  by (auto simp add: SearchOptions_toMap_def Let_def raw_overrides_notin
        split: if_splits sum.splits option.splits)

lemma analytics_raw_last_but_readonly:
  assumes "AnalyticsOptions_toMap durationString newUUID opts statement = Inr execOpts"
    and "AnalyticsRaw opts = Some r" and "distinct (map fst r)" and "(k, v) \<in> set r"
    and "\<not> (ReadOnly opts \<and> k = ''readonly'')"
  shows "execOpts k = Some v"
  using assms
  by (auto simp add: AnalyticsOptions_toMap_def Let_def raw_overrides_in
        split: if_splits)

lemma analytics_same_any_uuid:
  "ClientContextID opts \<noteq> '''' \<Longrightarrow>
   AnalyticsOptions_toMap durationString u1 (opts\<lparr>NamedParameters := Some [(''a'', v)]\<rparr>) st
     = AnalyticsOptions_toMap durationString u2 (opts\<lparr>NamedParameters := Some [(''$a'', v)]\<rparr>) st"
  by (simp add: AnalyticsOptions_toMap_def Let_def HasPrefix_def)

section \<open>Search and analytics encoding\<close>

text \<open>
  Claim C1. With \<^verbatim>\<open>ScanConsistency = NotBounded\<close> and no \<^verbatim>\<open>ConsistentWith\<close>, and
  with \<^verbatim>\<open>ConsistentWith\<close> set and no \<^verbatim>\<open>ScanConsistency\<close>, search encoding succeeds,
  but the returned map has no \<^verbatim>\<open>ctl\<close> key: \<^verbatim>\<open>toMap\<close> builds the \<^verbatim>\<open>ctl\<close> map in a
  local variable and returns \<^verbatim>\<open>data\<close> without storing it. (By \<open>search_no_ctl\<close> no
  options yield a \<^verbatim>\<open>ctl\<close> key unless \<^verbatim>\<open>Raw\<close> gives one.)
\<close>

theorem C1_ctl_never_stored:
  "(\<exists>data. SearchOptions_toMap toSearchMutationState
       \<lparr> ScanConsistency = SearchScanConsistencyNotBounded, Limit = 0, Skip = 0,
         Explain = False, Highlight = None, Fields = None, Sort = None, Facets = None,
         ConsistentWith = None, Raw = None, Timeout = 0 \<rparr> = Inr data
      \<and> data ''ctl'' = None)
   \<and> (\<exists>data. SearchOptions_toMap toSearchMutationState
       \<lparr> ScanConsistency = searchScanConsistencyNotSet, Limit = 0, Skip = 0,
         Explain = False, Highlight = None, Fields = None, Sort = None, Facets = None,
         ConsistentWith = Some ms, Raw = None, Timeout = 0 \<rparr> = Inr data
      \<and> data ''ctl'' = None)"
  by (simp add: SearchOptions_toMap_def Let_def searchScanConsistencyNotSet_def
        SearchScanConsistencyNotBounded_def raw_overrides_def)

text \<open>
  Claim C2. Analytics encoding writes \<^verbatim>\<open>readonly\<close> after the raw overrides: with
  \<^verbatim>\<open>Raw = {"readonly": false}\<close> and \<^verbatim>\<open>ReadOnly = true\<close> the output has
  \<^verbatim>\<open>readonly = true\<close>, not the value given in \<^verbatim>\<open>Raw\<close>. (Search encoding applies
  \<^verbatim>\<open>Raw\<close> last, see \<open>search_raw_last\<close>; in analytics encoding every other key of
  \<^verbatim>\<open>Raw\<close> keeps its value, see \<open>analytics_raw_last_but_readonly\<close>.)
\<close>

theorem C2_readonly_after_raw:
  "\<exists>execOpts. AnalyticsOptions_toMap durationString newUUID
       \<lparr> ServerSideTimeout = 0, ClientContextID = ''ctx'',
         AnalyticsRaw = Some [(''readonly'', VBool False)], Priority = False,
         PositionalParameters = None, NamedParameters = None, ReadOnly = True \<rparr>
       ''SELECT 1'' = Inr execOpts
     \<and> execOpts ''readonly'' = Some (VBool True)
     \<and> execOpts ''readonly'' \<noteq> Some (VBool False)"
  by (simp add: AnalyticsOptions_toMap_def Let_def raw_overrides_def)

text \<open>
  Claim C6. With both positional and named parameters set, analytics encoding fails and
  returns no map, but the error is the plain \<^verbatim>\<open>errors.New\<close> error, which no call of
  \<^verbatim>\<open>makeInvalidArgumentsError\<close> yields; search encoding reports its exclusivity
  violation through \<^verbatim>\<open>makeInvalidArgumentsError\<close> (see \<open>search_exclusive\<close>).
\<close>

theorem C6_analytics_plain_error:
  "AnalyticsOptions_toMap durationString newUUID
       \<lparr> ServerSideTimeout = 0, ClientContextID = ''ctx'', AnalyticsRaw = None,
         Priority = False, PositionalParameters = Some [VInt 1],
         NamedParameters = Some [(''a'', VInt 1)], ReadOnly = False \<rparr>
       ''SELECT 1''
     = Inl (ErrorString ''Positional and named parameters must be used exclusively'')
   \<and> (\<forall>message. makeInvalidArgumentsError message
          \<noteq> ErrorString ''Positional and named parameters must be used exclusively'')"
  by (simp add: AnalyticsOptions_toMap_def Let_def errors_New_def makeInvalidArgumentsError_def)

lemma search_exclusive:
  "ScanConsistency opts \<noteq> 0 \<Longrightarrow> ConsistentWith opts \<noteq> None \<Longrightarrow>
   SearchOptions_toMap toSearchMutationState opts =
     Inl (makeInvalidArgumentsError
            ''ScanConsistency and ConsistentWith must be used exclusively'')"
  by (simp add: SearchOptions_toMap_def Let_def)

text \<open>
  Claim C9, as the code has it. For analytics options with named parameters and no
  positional parameters, encoding succeeds; every named parameter \<open>k\<close> is emitted under
  the key \<open>dollar_key k\<close> (\<^verbatim>\<open>$\<close> prefixed unless already prefixed), with its value
  when no two parameters share a prefixed key and \<^verbatim>\<open>Raw\<close> does not give that key; and
  the named parameters \<^verbatim>\<open>{"a": 1}\<close> and \<^verbatim>\<open>{"$a": 1}\<close> give the same output, for
  the same draw of \<^verbatim>\<open>uuid.New()\<close> always and for any two draws when the caller
  supplies the client context id, with \<^verbatim>\<open>$a = 1\<close> in it unless \<^verbatim>\<open>Raw\<close> gives
  \<^verbatim>\<open>$a\<close>.
\<close>

theorem C9_named_parameters_dollar_prefix:
  assumes "PositionalParameters opts = None" and "NamedParameters opts = Some np"
  shows "\<exists>execOpts.
           AnalyticsOptions_toMap durationString newUUID opts statement = Inr execOpts
           \<and> (\<forall>kv \<in> set np. dollar_key (fst kv) \<in> dom execOpts)
           \<and> (distinct (map dollar_key (map fst np)) \<longrightarrow>
                (\<forall>kv \<in> set np. dollar_key (fst kv) \<notin> map_keys (AnalyticsRaw opts)
                   \<longrightarrow> execOpts (dollar_key (fst kv)) = Some (snd kv)))
           \<and> AnalyticsOptions_toMap durationString newUUID
                 (opts\<lparr>NamedParameters := Some [(''a'', VInt 1)]\<rparr>) statement
               = AnalyticsOptions_toMap durationString newUUID
                 (opts\<lparr>NamedParameters := Some [(''$a'', VInt 1)]\<rparr>) statement
           \<and> (ClientContextID opts \<noteq> '''' \<longrightarrow>
                AnalyticsOptions_toMap durationString newUUID
                  (opts\<lparr>NamedParameters := Some [(''a'', VInt 1)]\<rparr>) statement
                = AnalyticsOptions_toMap durationString otherUUID
                  (opts\<lparr>NamedParameters := Some [(''$a'', VInt 1)]\<rparr>) statement)
           \<and> (''$a'' \<notin> map_keys (AnalyticsRaw opts) \<longrightarrow>
                (\<exists>m. AnalyticsOptions_toMap durationString newUUID
                       (opts\<lparr>NamedParameters := Some [(''a'', VInt 1)]\<rparr>) statement = Inr m
                     \<and> m ''$a'' = Some (VInt 1)))"
proof -
  from assms obtain execOpts
    where e: "AnalyticsOptions_toMap durationString newUUID opts statement = Inr execOpts"
    using analytics_ok[of opts durationString newUUID statement] by auto
  have keys: "\<forall>kv \<in> set np. dollar_key (fst kv) \<in> dom execOpts"
  proof
    fix kv assume "kv \<in> set np"
    then have "(fst kv, snd kv) \<in> set np" by simp
    then show "dollar_key (fst kv) \<in> dom execOpts"
      by (rule analytics_named_dom[OF assms e])
  qed
  have vals: "distinct (map dollar_key (map fst np)) \<longrightarrow>
                (\<forall>kv \<in> set np. dollar_key (fst kv) \<notin> map_keys (AnalyticsRaw opts)
                   \<longrightarrow> execOpts (dollar_key (fst kv)) = Some (snd kv))"
  proof (intro impI ballI)
    fix kv
    assume d: "distinct (map dollar_key (map fst np))" and "kv \<in> set np"
      and r: "dollar_key (fst kv) \<notin> map_keys (AnalyticsRaw opts)"
    then have "(fst kv, snd kv) \<in> set np" by simp
    then show "execOpts (dollar_key (fst kv)) = Some (snd kv)"
      using d r by (rule analytics_named_val[OF assms e])
  qed
  have same: "AnalyticsOptions_toMap durationString newUUID
                 (opts\<lparr>NamedParameters := Some [(''a'', VInt 1)]\<rparr>) statement
               = AnalyticsOptions_toMap durationString newUUID
                 (opts\<lparr>NamedParameters := Some [(''$a'', VInt 1)]\<rparr>) statement"
    by (rule analytics_same)
  have same': "ClientContextID opts \<noteq> '''' \<longrightarrow>
                AnalyticsOptions_toMap durationString newUUID
                  (opts\<lparr>NamedParameters := Some [(''a'', VInt 1)]\<rparr>) statement
                = AnalyticsOptions_toMap durationString otherUUID
                  (opts\<lparr>NamedParameters := Some [(''$a'', VInt 1)]\<rparr>) statement"
    by (intro impI) (rule analytics_same_any_uuid)
  have one: "''$a'' \<notin> map_keys (AnalyticsRaw opts) \<longrightarrow>
                (\<exists>m. AnalyticsOptions_toMap durationString newUUID
                       (opts\<lparr>NamedParameters := Some [(''a'', VInt 1)]\<rparr>) statement = Inr m
                     \<and> m ''$a'' = Some (VInt 1))"
  proof
    assume r: "''$a'' \<notin> map_keys (AnalyticsRaw opts)"
    let ?o = "opts\<lparr>NamedParameters := Some [(''a'', VInt 1)]\<rparr>"
    have p: "PositionalParameters ?o = None" using assms(1) by simp
    have n: "NamedParameters ?o = Some [(''a'', VInt 1)]" by simp
    from p obtain m
      where m: "AnalyticsOptions_toMap durationString newUUID ?o statement = Inr m"
      using analytics_ok[of ?o durationString newUUID statement] by auto
    have k: "dollar_key ''a'' = ''$a''" by (simp add: dollar_key_def HasPrefix_def)
    have "m (dollar_key ''a'') = Some (VInt 1)"
      using r k by (intro analytics_named_val[OF p n m]) simp_all
    with m k show "\<exists>m. AnalyticsOptions_toMap durationString newUUID ?o statement = Inr m
                     \<and> m ''$a'' = Some (VInt 1)" by simp
  qed
  from e keys vals same same' one show ?thesis by blast
qed

theorem C9_named_parameters_dollar_prefix_witness:
  "\<exists>execOpts.
     AnalyticsOptions_toMap (\<lambda>d. ''1s'') ''uuid-1''
       \<lparr> ServerSideTimeout = 0, ClientContextID = ''ctx'', AnalyticsRaw = None,
         Priority = False, PositionalParameters = None,
         NamedParameters = Some [(''a'', VInt 1)], ReadOnly = False \<rparr> ''SELECT $a''
       = Inr execOpts
     \<and> execOpts ''$a'' = Some (VInt 1)
     \<and> AnalyticsOptions_toMap (\<lambda>d. ''1s'') ''uuid-2''
          \<lparr> ServerSideTimeout = 0, ClientContextID = ''ctx'', AnalyticsRaw = None,
            Priority = False, PositionalParameters = None,
            NamedParameters = Some [(''$a'', VInt 1)], ReadOnly = False \<rparr> ''SELECT $a''
        = Inr execOpts"
  using C9_named_parameters_dollar_prefix
    [of "\<lparr> ServerSideTimeout = 0, ClientContextID = ''ctx'', AnalyticsRaw = None,
           Priority = False, PositionalParameters = None,
           NamedParameters = Some [(''a'', VInt 1)], ReadOnly = False \<rparr>"
        "[(''a'', VInt 1)]" "\<lambda>d. ''1s''" "''uuid-1''" "''SELECT $a''" "''uuid-2''"]
  by (auto simp add: dollar_key_def HasPrefix_def map_keys_def)

text \<open>
  Claim C9 as stated fails on three inputs. With \<^verbatim>\<open>Raw = {"$a": 5}\<close> the named
  parameters \<^verbatim>\<open>{"a": 1}\<close> give \<^verbatim>\<open>$a = 5\<close>, not 1. With the named parameters
  \<^verbatim>\<open>{"a": 1, "$a": 2}\<close>, visited in this order, both take the key \<^verbatim>\<open>$a\<close> and the
  output has \<^verbatim>\<open>$a = 2\<close>. With no client context id supplied, the encodings of
  \<^verbatim>\<open>{"a": 1}\<close> and \<^verbatim>\<open>{"$a": 1}\<close> under two draws of \<^verbatim>\<open>uuid.New()\<close> differ.
\<close>

theorem C9_named_parameters_counterexample:
  "projr (AnalyticsOptions_toMap example_durationString ''uuid-1''
            (example_analytics (Some [(''$a'', VInt 5)]) ''ctx'' [(''a'', VInt 1)])
            ''SELECT $a'') ''$a'' = Some (VInt 5)
   \<and> projr (AnalyticsOptions_toMap example_durationString ''uuid-1''
            (example_analytics None ''ctx'' [(''a'', VInt 1), (''$a'', VInt 2)])
            ''SELECT $a'') ''$a'' = Some (VInt 2)
   \<and> AnalyticsOptions_toMap example_durationString ''uuid-1''
         (example_analytics None '''' [(''a'', VInt 1)]) ''SELECT $a''
       \<noteq> AnalyticsOptions_toMap example_durationString ''uuid-2''
         (example_analytics None '''' [(''$a'', VInt 1)]) ''SELECT $a''"
proof -
  have raw: "projr (AnalyticsOptions_toMap example_durationString ''uuid-1''
            (example_analytics (Some [(''$a'', VInt 5)]) ''ctx'' [(''a'', VInt 1)])
            ''SELECT $a'') ''$a'' = Some (VInt 5)"
    by (simp add: AnalyticsOptions_toMap_def example_analytics_def Let_def HasPrefix_def
          raw_overrides_def)
  have clash: "projr (AnalyticsOptions_toMap example_durationString ''uuid-1''
            (example_analytics None ''ctx'' [(''a'', VInt 1), (''$a'', VInt 2)])
            ''SELECT $a'') ''$a'' = Some (VInt 2)"
    by (simp add: AnalyticsOptions_toMap_def example_analytics_def Let_def HasPrefix_def
          raw_overrides_def)
  have id1: "projr (AnalyticsOptions_toMap example_durationString ''uuid-1''
            (example_analytics None '''' [(''a'', VInt 1)]) ''SELECT $a'')
            ''client_context_id'' = Some (VUUID ''uuid-1'')"
    by (simp add: AnalyticsOptions_toMap_def example_analytics_def Let_def HasPrefix_def
          raw_overrides_def)
  have id2: "projr (AnalyticsOptions_toMap example_durationString ''uuid-2''
            (example_analytics None '''' [(''$a'', VInt 1)]) ''SELECT $a'')
            ''client_context_id'' = Some (VUUID ''uuid-2'')"
    by (simp add: AnalyticsOptions_toMap_def example_analytics_def Let_def HasPrefix_def
          raw_overrides_def)
  have draws: "AnalyticsOptions_toMap example_durationString ''uuid-1''
         (example_analytics None '''' [(''a'', VInt 1)]) ''SELECT $a''
       \<noteq> AnalyticsOptions_toMap example_durationString ''uuid-2''
         (example_analytics None '''' [(''$a'', VInt 1)]) ''SELECT $a''"
  proof
    assume "AnalyticsOptions_toMap example_durationString ''uuid-1''
         (example_analytics None '''' [(''a'', VInt 1)]) ''SELECT $a''
       = AnalyticsOptions_toMap example_durationString ''uuid-2''
         (example_analytics None '''' [(''$a'', VInt 1)]) ''SELECT $a''"
    with id1 id2 show False by simp
  qed
  from raw clash draws show ?thesis by (intro conjI)
qed

text \<open>
  Claim C10. With \<^verbatim>\<open>ConsistentWith\<close> nil and \<^verbatim>\<open>ScanConsistency\<close> neither unset (0)
  nor NotBounded (1), search encoding returns the invalid-arguments error
  "unexpected consistency option" and no map.
\<close>

theorem C10_unexpected_consistency_option:
  assumes "ConsistentWith opts = None"
    and "ScanConsistency opts \<noteq> searchScanConsistencyNotSet"
    and "ScanConsistency opts \<noteq> SearchScanConsistencyNotBounded"
  shows "SearchOptions_toMap toSearchMutationState opts =
           Inl (makeInvalidArgumentsError ''unexpected consistency option'')"
  using assms by (simp add: SearchOptions_toMap_def Let_def searchScanConsistencyNotSet_def)

theorem C10_unexpected_consistency_option_witness:
  "SearchOptions_toMap (\<lambda>ms::unit. VNil)
     \<lparr> ScanConsistency = 2, Limit = 10, Skip = 0, Explain = False, Highlight = None,
       Fields = None, Sort = None, Facets = None, ConsistentWith = None,
       Raw = Some [(''size'', VInt 999)], Timeout = 0 \<rparr>
   = Inl (InvalidArgumentsError ''unexpected consistency option'')"
  using C10_unexpected_consistency_option
    [of "\<lparr> ScanConsistency = 2, Limit = 10, Skip = 0, Explain = False, Highlight = None,
           Fields = None, Sort = None, Facets = None, ConsistentWith = None,
           Raw = Some [(''size'', VInt 999)], Timeout = 0 \<rparr>" "\<lambda>ms::unit. VNil"]
  by (simp add: searchScanConsistencyNotSet_def SearchScanConsistencyNotBounded_def
        makeInvalidArgumentsError_def)

section \<open>Connect\<close>

lemma Connect_management_timeout:
  "sb_ManagementTimeout (Connect_stateBlock opts) =
     (if ManagementTimeout opts > 0 then SearchTimeout opts else 75000 * Millisecond)"
  by (simp add: Connect_stateBlock_def Let_def)

text \<open>
  Claim C8. \<^verbatim>\<open>Connect\<close> with a positive \<^verbatim>\<open>ManagementTimeout\<close> option stores the
  \<^verbatim>\<open>SearchTimeout\<close> option as the management timeout, not the supplied value: with
  management 5 s and search 30 s the management timeout is 30 s, and with the search
  option unset it is 0. (\<open>Connect_management_timeout\<close> gives the value for all options.)
\<close>

theorem C8_management_timeout_takes_search_option:
  "sb_ManagementTimeout (Connect_stateBlock
       \<lparr> ConnectTimeout = 0, KVTimeout = 0, ViewTimeout = 0, QueryTimeout = 0,
         AnalyticsTimeout = 0, SearchTimeout = 30000 * Millisecond,
         ManagementTimeout = 5000 * Millisecond \<rparr>) = 30000 * Millisecond
   \<and> sb_ManagementTimeout (Connect_stateBlock
       \<lparr> ConnectTimeout = 0, KVTimeout = 0, ViewTimeout = 0, QueryTimeout = 0,
         AnalyticsTimeout = 0, SearchTimeout = 0,
         ManagementTimeout = 5000 * Millisecond \<rparr>) = 0"
  by (simp add: Connect_stateBlock_def Let_def Millisecond_def)

section \<open>Routing of cluster-scoped requests\<close>

lemma randomClient_range_none:
  "filter (\<lambda>cli. connected (h cli)) (map snd conns) = [] \<Longrightarrow>
   randomClient_range h conns fe =
     (None, case fe of Some e \<Rightarrow> Some e | None \<Rightarrow> first_bootstrap_error h conns)"
proof (induction conns arbitrary: fe)
  case Nil
  then show ?case by (simp add: first_bootstrap_error_def split: option.splits)
next
  case (Cons kc conns)
  obtain k c where kc: "kc = (k, c)" by (cases kc)
  from Cons.prems kc have nc: "\<not> connected (h c)"
    and rest: "filter (\<lambda>cli. connected (h cli)) (map snd conns) = []"
    by (auto split: if_splits)
  show ?case using kc nc Cons.IH[OF rest]
    by (cases fe; cases "bootstrapError (h c)") (simp_all add: first_bootstrap_error_def)
qed

lemma randomClient_range_some:
  "filter (\<lambda>cli. connected (h cli)) (map snd conns) = cli # rest \<Longrightarrow>
   fst (randomClient_range h conns fe) = Some cli"
proof (induction conns arbitrary: fe)
  case Nil
  then show ?case by simp
next
  case (Cons kc conns)
  obtain k c where kc: "kc = (k, c)" by (cases kc)
  show ?case
  proof (cases "connected (h c)")
    case True
    with Cons.prems kc show ?thesis by simp
  next
    case False
    with Cons.prems kc have "filter (\<lambda>cli. connected (h cli)) (map snd conns) = cli # rest" by simp
    then have "\<And>fe. fst (randomClient_range h conns fe) = Some cli" by (rule Cons.IH)
    with False kc show ?thesis by simp
  qed
qed

lemma randomClient_spec:
  "randomClient c =
     (case first_connected (clients c) (connections c) of
        Some cli \<Rightarrow> Inr cli
      | None \<Rightarrow>
          (case first_bootstrap_error (clients c) (connections c) of
             Some e \<Rightarrow> Inl e
           | None \<Rightarrow> Inl (ErrorString ''not connected to cluster'')))"
proof (cases "filter (\<lambda>cli. connected (clients c cli)) (map snd (connections c))")
  case Nil
  show ?thesis
  proof (cases "connections c")
    case Nil
    then show ?thesis
      by (simp add: randomClient_def first_connected_def first_bootstrap_error_def errors_New_def)
  next
    case (Cons kc rest)
    then have ne: "length (connections c) \<noteq> 0" by simp
    from randomClient_range_none[OF \<open>filter _ _ = []\<close>, of None]
    show ?thesis using ne \<open>filter _ _ = []\<close>
      by (simp add: randomClient_def first_connected_def errors_New_def split: option.splits)
  qed
next
  case (Cons cli rest)
  then have ne: "length (connections c) \<noteq> 0" by auto
  obtain r fe where rf: "randomClient_range (clients c) (connections c) None = (r, fe)"
    by (cases "randomClient_range (clients c) (connections c) None")
  with randomClient_range_some[OF Cons, of None] have "r = Some cli" by simp
  with rf ne Cons show ?thesis
    by (simp add: randomClient_def first_connected_def)
qed

text \<open>
  Claim C5. \<^verbatim>\<open>clusterOrRandomClient\<close> routes as the specification says: an unclaimed
  floating client is returned exactly when it supports cluster-level operations, and
  otherwise the call fails with the unsupported error whatever the registry holds; with
  the floating client claimed, the first connected registry entry in iteration order is
  returned; with none connected, the call fails with the first bootstrap error recorded
  among the entries, or with "not connected to cluster" when there is none or the
  registry is empty.
\<close>

theorem C5_clusterOrRandomClient_routes:
  "clusterOrRandomClient c = route_spec c"
  by (simp add: clusterOrRandomClient_def route_spec_def randomClient_spec errors_New_def
           split: option.splits sum.splits)

section \<open>Closing the cluster\<close>

lemma last_error_append:
  "last_error (rs @ [r]) = (case r of Some e \<Rightarrow> Some e | None \<Rightarrow> last_error rs)"
  by (induction rs) (auto split: option.splits)

lemma client_close_fields:
  "client_close t cli c = (err, c') \<Longrightarrow>
     connections c' = connections c \<and> clusterClient c' = clusterClient c
     \<and> calls c' = calls c @ [CallClose cli err]"
  by (auto simp: client_close_def Let_def split: prod.splits)

lemma close_range_effect:
  "close_range t xs (c, e) = (c', e') \<Longrightarrow>
     \<exists>new. calls c' = calls c @ new
       \<and> map close_target new = map Some (map snd xs)
       \<and> e' = (case last_error (map call_result new) of Some x \<Rightarrow> Some x | None \<Rightarrow> e)
       \<and> connections c' = filter (\<lambda>kc. fst kc \<notin> fst ` set xs) (connections c)
       \<and> clusterClient c' = clusterClient c"
proof (induction xs arbitrary: c e)
  case Nil
  then show ?case by simp
next
  case (Cons kc xs)
  obtain key conn where kc: "kc = (key, conn)" by (cases kc)
  obtain err c1 where cl: "client_close t conn c = (err, c1)" by (cases "client_close t conn c")
  note f = client_close_fields[OF cl]
  let ?c2 = "c1\<lparr>connections := AList.delete key (connections c1)\<rparr>"
  let ?e2 = "case err of Some x \<Rightarrow> Some x | None \<Rightarrow> e"
  from Cons.prems kc cl have "close_range t xs (?c2, ?e2) = (c', e')" by simp
  from Cons.IH[OF this] obtain new where
    n1: "calls c' = calls ?c2 @ new" and
    n2: "map close_target new = map Some (map snd xs)" and
    n3: "e' = (case last_error (map call_result new) of Some x \<Rightarrow> Some x | None \<Rightarrow> ?e2)" and
    n4: "connections c' = filter (\<lambda>kc. fst kc \<notin> fst ` set xs) (connections ?c2)" and
    n5: "clusterClient c' = clusterClient ?c2"
    by blast
  have "calls c' = calls c @ (CallClose conn err # new)" using n1 f by simp
  moreover have "map close_target (CallClose conn err # new) = map Some (map snd (kc # xs))"
    using n2 kc by simp
  moreover have "e' = (case last_error (map call_result (CallClose conn err # new)) of
                          Some x \<Rightarrow> Some x | None \<Rightarrow> e)"
    using n3 by (simp split: option.splits)
  moreover have "connections c' = filter (\<lambda>kc'. fst kc' \<notin> fst ` set (kc # xs)) (connections c)"
    using n4 f kc by (auto simp add: AList.delete_eq split_def intro: filter_cong)
  moreover have "clusterClient c' = clusterClient c" using n5 f by simp
  ultimately show ?case by blast
qed

lemma filter_own_keys: "filter (\<lambda>kc. fst kc \<notin> fst ` set xs) xs = []"
  by (induction xs) (auto simp: filter_empty_conv)

text \<open>
  Claim C3, as the code has it. \<^verbatim>\<open>Cluster.Close\<close> calls \<^verbatim>\<open>close\<close> on every
  registered connection in iteration order and then on the floating client if it is
  still unclaimed, whatever the earlier closes returned; it returns the last close error
  of that sequence (nil if every close succeeded); and afterwards the connections map is
  empty.
\<close>

theorem C3_Close_last_error:
  assumes "Cluster_Close t c = (err, c')"
  shows "\<exists>new. calls c' = calls c @ new
          \<and> map close_target new =
              map Some (map snd (connections c)
                        @ (case clusterClient c of Some cc \<Rightarrow> [cc] | None \<Rightarrow> []))
          \<and> err = last_error (map call_result new)
          \<and> connections c' = []"
proof -
  obtain c1 e1 where cr: "close_range t (connections c) (c, None) = (c1, e1)"
    by (cases "close_range t (connections c) (c, None)")
  from close_range_effect[OF cr] obtain new where
    n1: "calls c1 = calls c @ new" and
    n2: "map close_target new = map Some (map snd (connections c))" and
    n3: "e1 = last_error (map call_result new)" and
    n4: "connections c1 = []" and
    n5: "clusterClient c1 = clusterClient c"
    by (auto simp: filter_own_keys split: option.splits)
  show ?thesis
  proof (cases "clusterClient c")
    case None
    with assms cr n5 have "err = e1" "connections c' = connections c1" "calls c' = calls c1"
      by (auto simp: Cluster_Close_def Let_def split: option.splits)
    with n1 n2 n3 n4 None show ?thesis by auto
  next
    case (Some cc)
    obtain r c2 where cl: "client_close t cc c1 = (r, c2)" by (cases "client_close t cc c1")
    note f = client_close_fields[OF cl]
    from assms cr n5 Some cl have e: "err = (case r of Some x \<Rightarrow> Some x | None \<Rightarrow> e1)"
      and "connections c' = connections c2" and "calls c' = calls c2"
      by (auto simp: Cluster_Close_def Let_def split: option.splits)
    then have "calls c' = calls c @ (new @ [CallClose cc r])" "connections c' = []"
      using f n1 n4 by auto
    moreover have "map close_target (new @ [CallClose cc r])
                     = map Some (map snd (connections c) @ [cc])"
      using n2 by simp
    moreover have "err = last_error (map call_result (new @ [CallClose cc r]))"
      using e n3 by (simp add: last_error_append split: option.splits)
    ultimately show ?thesis using Some by (intro exI[of _ "new @ [CallClose cc r]"]) simp
  qed
qed

theorem C3_Close_last_error_witness:
  "\<exists>new. calls (snd (Cluster_Close example_transport example_cluster)) = new
     \<and> map close_target new = [Some 1, Some 2, Some 3, Some 0]
     \<and> fst (Cluster_Close example_transport example_cluster)
         = last_error (map call_result new)
     \<and> connections (snd (Cluster_Close example_transport example_cluster)) = []"
  using C3_Close_last_error
    [of example_transport example_cluster
        "fst (Cluster_Close example_transport example_cluster)"
        "snd (Cluster_Close example_transport example_cluster)"]
  by (simp add: example_cluster_def)

text \<open>
  Claim C3 as stated fails on the example cluster: closing the connections \<^verbatim>\<open>a\<close> and
  \<^verbatim>\<open>b\<close> fails; \<^verbatim>\<open>Close\<close> returns the error of \<^verbatim>\<open>b\<close>, while the first close error
  encountered is that of \<^verbatim>\<open>a\<close>, and the floating client is still in its slot
  afterwards.
\<close>

theorem C3_Close_counterexample:
  "fst (Cluster_Close example_transport example_cluster) = Some (ErrorString ''close b failed'')
   \<and> first_error (map call_result (calls (snd (Cluster_Close example_transport example_cluster))))
       = Some (ErrorString ''close a failed'')
   \<and> fst (Cluster_Close example_transport example_cluster)
       \<noteq> first_error (map call_result
             (calls (snd (Cluster_Close example_transport example_cluster))))
   \<and> clusterClient (snd (Cluster_Close example_transport example_cluster)) = Some 0"
  by (simp add: Cluster_Close_def example_transport_def example_cluster_def Let_def
        client_close_def example_close_error_def)

section \<open>Acquiring buckets\<close>

lemma client_selectBucket_eq:
  "client_selectBucket t cli n c =
     (fst (t_selectBucket t cli n (clients c cli)),
      c\<lparr>clients := (clients c)(cli := snd (t_selectBucket t cli n (clients c cli))),
        calls := calls c @ [CallSelectBucket cli n (fst (t_selectBucket t cli n (clients c cli)))]\<rparr>)"
  by (simp add: client_selectBucket_def split_def Let_def)

lemma client_buildConfig_eq:
  "client_buildConfig t cli c =
     (fst (t_buildConfig t cli (clients c cli)),
      c\<lparr>clients := (clients c)(cli := snd (t_buildConfig t cli (clients c cli))),
        calls := calls c @ [CallBuildConfig cli (fst (t_buildConfig t cli (clients c cli)))]\<rparr>)"
  by (simp add: client_buildConfig_def split_def Let_def)

lemma client_connect_eq:
  "client_connect t cli c =
     (fst (t_connect t cli (clients c cli)),
      c\<lparr>clients := (clients c)(cli := snd (t_connect t cli (clients c cli))),
        calls := calls c @ [CallConnect cli (fst (t_connect t cli (clients c cli)))]\<rparr>)"
  by (simp add: client_connect_def split_def Let_def)

lemma Bucket_floating_eq:
  assumes "clusterClient c = Some cli"
  shows "Cluster_Bucket Hash t n c =
    (let r = fst (t_selectBucket t cli n (clients c cli));
         st = snd (t_selectBucket t cli n (clients c cli));
         st = (case r of Some e \<Rightarrow> st\<lparr>bootstrapError := Some e\<rparr> | None \<Rightarrow> st)
     in (\<lparr> sb_clientStateBlock = \<lparr> BucketName = n \<rparr>, sb_cachedClient = Some cli \<rparr>,
         c\<lparr>clusterClient := None,
           clients := (clients c)(cli := st),
           calls := calls c @ [CallSelectBucket cli n r],
           connections := AList.update (Hash \<lparr> BucketName = n \<rparr>) cli (connections c)\<rparr>))"
  using assms
  by (simp add: Cluster_Bucket_def takeClusterClient_def client_selectBucket_eq
        setBootstrapError_def newBucket_def cacheClient_def Bucket_hash_def Let_def
      split: option.splits)


lemma getClient_eq:
  "getClient Hash t sb c =
     (case map_of (connections c) (Hash sb) of
        Some x \<Rightarrow> (x, c)
      | None \<Rightarrow> (nextClient c,
                 c\<lparr>clients := (clients c)(nextClient c := t_newClient t sb),
                   nextClient := Suc (nextClient c)\<rparr>))"
  by (simp add: getClient_def newClient_def Let_def split: option.splits)

lemma Bucket_claimed:
  assumes "clusterClient c = None" and "Cluster_Bucket Hash t n c = (b, c')"
  shows "sb_cachedClient b =
           Some (case map_of (connections c) (Hash \<lparr> BucketName = n \<rparr>) of
                   Some x \<Rightarrow> x | None \<Rightarrow> nextClient c)"
    and "sb_clientStateBlock b = \<lparr> BucketName = n \<rparr>"
    and "clusterClient c' = None"
    and "connections c' =
           AList.update (Hash \<lparr> BucketName = n \<rparr>)
             (case map_of (connections c) (Hash \<lparr> BucketName = n \<rparr>) of
                Some x \<Rightarrow> x | None \<Rightarrow> nextClient c) (connections c)"
    and "nextClient c \<le> nextClient c'"
proof -
  let ?sb = "\<lparr> BucketName = n \<rparr>"
  obtain x c1 where g: "getClient Hash t ?sb c = (x, c1)" by (cases "getClient Hash t ?sb c")
  then have x: "x = (case map_of (connections c) (Hash ?sb) of Some x \<Rightarrow> x | None \<Rightarrow> nextClient c)"
    and c1: "connections c1 = connections c" "clusterClient c1 = clusterClient c"
      "nextClient c \<le> nextClient c1"
    by (auto simp: getClient_eq split: option.splits)
  have keep: "\<And>c0 e. connections (setBootstrapError x e c0) = connections c0
                 \<and> clusterClient (setBootstrapError x e c0) = clusterClient c0
                 \<and> nextClient (setBootstrapError x e c0) = nextClient c0"
    by (simp add: setBootstrapError_def)
  have keep2: "\<And>c0. connections (snd (client_buildConfig t x c0)) = connections c0
                 \<and> clusterClient (snd (client_buildConfig t x c0)) = clusterClient c0
                 \<and> nextClient (snd (client_buildConfig t x c0)) = nextClient c0"
    by (simp add: client_buildConfig_eq)
  have keep3: "\<And>c0. connections (snd (client_connect t x c0)) = connections c0
                 \<and> clusterClient (snd (client_connect t x c0)) = clusterClient c0
                 \<and> nextClient (snd (client_connect t x c0)) = nextClient c0"
    by (simp add: client_connect_eq)
  from assms g have b: "b = \<lparr> sb_clientStateBlock = ?sb, sb_cachedClient = Some x \<rparr>"
    by (simp add: Cluster_Bucket_def takeClusterClient_def newBucket_def cacheClient_def
          Bucket_hash_def Let_def split_def)
  from assms g have c': "connections c' = AList.update (Hash ?sb) x (connections c1)
                     \<and> clusterClient c' = clusterClient c1 \<and> nextClient c' = nextClient c1"
    by (auto simp add: Cluster_Bucket_def takeClusterClient_def newBucket_def cacheClient_def
          Bucket_hash_def Let_def split_def keep keep2 keep3 split: option.splits)
  show "sb_cachedClient b = Some (case map_of (connections c) (Hash ?sb) of
                   Some x \<Rightarrow> x | None \<Rightarrow> nextClient c)" using b x by simp
  show "sb_clientStateBlock b = ?sb" using b by simp
  show "clusterClient c' = None" using c' c1 assms(1) by simp
  show "connections c' = AList.update (Hash ?sb)
             (case map_of (connections c) (Hash ?sb) of
                Some x \<Rightarrow> x | None \<Rightarrow> nextClient c) (connections c)"
    using c' c1 x by simp
  show "nextClient c \<le> nextClient c'" using c' c1 by simp
qed

lemma Bucket_floating:
  assumes "clusterClient c = Some cli" and "Cluster_Bucket Hash t n c = (b, c')"
  shows "sb_cachedClient b = Some cli"
    and "sb_clientStateBlock b = \<lparr> BucketName = n \<rparr>"
    and "clusterClient c' = None"
    and "calls c' = calls c @ [CallSelectBucket cli n (fst (t_selectBucket t cli n (clients c cli)))]"
    and "fst (t_selectBucket t cli n (clients c cli)) = Some e
           \<Longrightarrow> bootstrapError (clients c' cli) = Some e"
    and "connections c' = AList.update (Hash \<lparr> BucketName = n \<rparr>) cli (connections c)"
    and "nextClient c' = nextClient c"
  using assms(2) unfolding Bucket_floating_eq[OF assms(1)]
  by (auto simp: Let_def)


lemma Bucket_stored:
  assumes "Cluster_Bucket Hash t n c = (b, c')"
  shows "map_of (connections c') (Bucket_hash Hash b) = sb_cachedClient b"
proof (cases "clusterClient c")
  case None
  from Bucket_claimed(1,2,4)[OF None assms] show ?thesis
    by (simp add: Bucket_hash_def update_conv')
next
  case (Some cli)
  from Bucket_floating(1,2,6)[OF Some assms] show ?thesis
    by (simp add: Bucket_hash_def update_conv')
qed

lemma Bucket_cached:
  assumes "Cluster_Bucket Hash t n c = (b, c')"
  shows "\<exists>x. sb_cachedClient b = Some x"
proof (cases "clusterClient c")
  case None
  from Bucket_claimed(1)[OF None assms] show ?thesis by simp
next
  case (Some cli)
  from Bucket_floating(1)[OF Some assms] show ?thesis by simp
qed

lemma Bucket_always_stored:
  "\<exists>x. sb_cachedClient (fst (Cluster_Bucket Hash t n c)) = Some x
      \<and> map_of (connections (snd (Cluster_Bucket Hash t n c)))
            (Bucket_hash Hash (fst (Cluster_Bucket Hash t n c))) = Some x"
proof -
  obtain b c' where r: "Cluster_Bucket Hash t n c = (b, c')"
    by (cases "Cluster_Bucket Hash t n c")
  from Bucket_cached[OF r] Bucket_stored[OF r] r show ?thesis by auto
qed

lemma claimed_step:
  assumes none: "clusterClient c = None" and lt: "cli < nextClient c"
    and only: "\<forall>k. (map_of (connections c) k = Some cli) = (k = h)"
    and run: "Cluster_Bucket Hash t n c = (b, c')"
  shows "clusterClient c' = None" and "cli < nextClient c'"
    and "\<forall>k. (map_of (connections c') k = Some cli) = (k = h)"
    and "(sb_cachedClient b = Some cli) = (Bucket_hash Hash b = h)"
proof -
  let ?k = "Hash \<lparr> BucketName = n \<rparr>"
  let ?x = "case map_of (connections c) ?k of Some x \<Rightarrow> x | None \<Rightarrow> nextClient c"
  note f = Bucket_claimed[OF none run]
  from only have at_h: "map_of (connections c) h = Some cli" by simp
  from only have other: "\<And>k. k \<noteq> h \<Longrightarrow> map_of (connections c) k \<noteq> Some cli" by simp
  show "clusterClient c' = None" by (rule f(3))
  show "cli < nextClient c'" using lt f(5) by simp
  have x: "(?x = cli) = (?k = h)"
  proof (cases "?k = h")
    case True
    then show ?thesis using at_h by simp
  next
    case False
    from other[OF False] have ne: "map_of (connections c) ?k \<noteq> Some cli" .
    have "?x \<noteq> cli"
    proof (cases "map_of (connections c) ?k")
      case None
      then show ?thesis using lt by simp
    next
      case (Some y)
      then show ?thesis using ne by simp
    qed
    with False show ?thesis by simp
  qed
  show "(sb_cachedClient b = Some cli) = (Bucket_hash Hash b = h)"
    using f(1,2) x by (simp add: Bucket_hash_def)
  show "\<forall>k. (map_of (connections c') k = Some cli) = (k = h)"
  proof
    fix k
    have m: "map_of (connections c') k = ((map_of (connections c))(?k \<mapsto> ?x)) k"
      unfolding f(4) by (simp only: update_conv')
    show "(map_of (connections c') k = Some cli) = (k = h)"
    proof (cases "k = ?k")
      case True
      then have "map_of (connections c') k = Some ?x" using m by simp
      then show ?thesis using x True by simp
    next
      case False
      then have "map_of (connections c') k = map_of (connections c) k" using m by simp
      then show ?thesis using only by simp
    qed
  qed
qed

lemma claimed_seq:
  assumes "clusterClient c = None" and "cli < nextClient c"
    and "\<forall>k. (map_of (connections c) k = Some cli) = (k = h)"
    and "Bucket_seq Hash t ns c = (bs, c')"
  shows "clusterClient c' = None
         \<and> (\<forall>b \<in> set bs. (sb_cachedClient b = Some cli) = (Bucket_hash Hash b = h))"
  using assms
proof (induction ns arbitrary: c bs c')
  case Nil
  then show ?case by simp
next
  case (Cons n ns)
  obtain b c1 where b: "Cluster_Bucket Hash t n c = (b, c1)" by (cases "Cluster_Bucket Hash t n c")
  obtain bs1 c2 where bs1: "Bucket_seq Hash t ns c1 = (bs1, c2)" by (cases "Bucket_seq Hash t ns c1")
  from Cons.prems(4) b bs1 have eq: "bs = b # bs1" "c' = c2" by auto
  note s = claimed_step[OF Cons.prems(1,2,3) b]
  from Cons.IH[OF s(1,2,3) bs1] s(4) eq show ?case by simp
qed

text \<open>
  Claim C4, as the code has it. In a well-formed registry with an unclaimed floating
  client, the first \<^verbatim>\<open>Cluster.Bucket\<close> call returns that client after calling
  \<^verbatim>\<open>selectBucket\<close> on it, a selection failure is recorded as the client's bootstrap
  error, and \<^verbatim>\<open>takeClusterClient\<close> returns nil from then on. A later acquisition
  receives that client again exactly when it asks for the same identity hash (the
  registry lookup of \<^verbatim>\<open>getClient\<close> finds it there); for any other identity it
  obtains a different connection. In every branch and every state the returned connection
  is stored in the connections map under the bucket's identity hash.
\<close>

theorem C4_floating_client_claimed_once:
  assumes ok: "registry_ok c" and fl: "clusterClient c = Some cli"
    and run: "Bucket_seq Hash t (n # ns) c = (b # bs, c')"
  shows "sb_cachedClient b = Some cli
    \<and> (\<exists>c1. Cluster_Bucket Hash t n c = (b, c1)
          \<and> calls c1 = calls c @ [CallSelectBucket cli n (fst (t_selectBucket t cli n (clients c cli)))]
          \<and> (case fst (t_selectBucket t cli n (clients c cli)) of
                Some e \<Rightarrow> bootstrapError (clients c1 cli) = Some e
              | None \<Rightarrow> True)
          \<and> fst (takeClusterClient c1) = None
          \<and> map_of (connections c1) (Bucket_hash Hash b) = Some cli)
    \<and> (\<forall>b' \<in> set bs. (sb_cachedClient b' = Some cli) = (Bucket_hash Hash b' = Bucket_hash Hash b))
    \<and> clusterClient c' = None
    \<and> (\<forall>c0 n0. \<exists>x. sb_cachedClient (fst (Cluster_Bucket Hash t n0 c0)) = Some x
            \<and> map_of (connections (snd (Cluster_Bucket Hash t n0 c0)))
                  (Bucket_hash Hash (fst (Cluster_Bucket Hash t n0 c0))) = Some x)"
proof -
  obtain b0 c1 where b0: "Cluster_Bucket Hash t n c = (b0, c1)" by (cases "Cluster_Bucket Hash t n c")
  obtain bs1 c2 where bs1: "Bucket_seq Hash t ns c1 = (bs1, c2)" by (cases "Bucket_seq Hash t ns c1")
  from run b0 bs1 have eq: "b0 = b" "bs1 = bs" "c2 = c'" by auto
  note f = Bucket_floating[OF fl b0[unfolded eq]]
  let ?h = "Bucket_hash Hash b"
  have h: "?h = Hash \<lparr> BucketName = n \<rparr>" using f(2) by (simp add: Bucket_hash_def)
  from ok fl have lt: "cli < nextClient c" and notin: "cli \<notin> snd ` set (connections c)"
    by (auto simp: registry_ok_def)
  have "\<And>k. map_of (connections c) k \<noteq> Some cli"
    using notin by (force dest: map_of_SomeD)
  then have only: "\<forall>k. (map_of (connections c1) k = Some cli) = (k = ?h)"
    using f(6) h by (auto simp: update_conv')
  have lt1: "cli < nextClient c1" using lt f(7) by simp
  from claimed_seq[OF f(3) lt1 only bs1[unfolded eq]]
  have later: "clusterClient c' = None"
    "\<forall>b' \<in> set bs. (sb_cachedClient b' = Some cli) = (Bucket_hash Hash b' = ?h)"
    by auto
  have first: "\<exists>c1. Cluster_Bucket Hash t n c = (b, c1)
          \<and> calls c1 = calls c @ [CallSelectBucket cli n (fst (t_selectBucket t cli n (clients c cli)))]
          \<and> (case fst (t_selectBucket t cli n (clients c cli)) of
                Some e \<Rightarrow> bootstrapError (clients c1 cli) = Some e
              | None \<Rightarrow> True)
          \<and> fst (takeClusterClient c1) = None
          \<and> map_of (connections c1) (Bucket_hash Hash b) = Some cli"
    using b0[unfolded eq] f(3,4) only
    apply (intro exI[of _ c1])
    apply (simp add: takeClusterClient_def)
    apply (cases "fst (t_selectBucket t cli n (clients c cli))")
     apply simp
    apply (simp add: f(5))
    done
  have stored: "\<forall>c0 n0. \<exists>x. sb_cachedClient (fst (Cluster_Bucket Hash t n0 c0)) = Some x
            \<and> map_of (connections (snd (Cluster_Bucket Hash t n0 c0)))
                  (Bucket_hash Hash (fst (Cluster_Bucket Hash t n0 c0))) = Some x"
    by (intro allI) (rule Bucket_always_stored)
  from f(1) first later(2) later(1) stored show ?thesis by (intro conjI)
qed



theorem C4_floating_client_claimed_once_witness:
  "sb_cachedClient (hd (fst (Bucket_seq example_hash example_transport
          [''missing'', ''b'', ''missing'', ''new''] example_cluster))) = Some 0
   \<and> list_all (\<lambda>b'. (sb_cachedClient b' = Some 0) = (Bucket_hash example_hash b' = ''missing''))
         (tl (fst (Bucket_seq example_hash example_transport
          [''missing'', ''b'', ''missing'', ''new''] example_cluster)))
   \<and> clusterClient (snd (Bucket_seq example_hash example_transport
          [''missing'', ''b'', ''missing'', ''new''] example_cluster)) = None"
proof -
  let ?R = "Bucket_seq example_hash example_transport
              [''missing'', ''b'', ''missing'', ''new''] example_cluster"
  have ok: "registry_ok example_cluster"
    by (simp add: registry_ok_def example_cluster_def)
  have fl: "clusterClient example_cluster = Some 0"
    by (simp add: example_cluster_def)
  have run: "?R = (hd (fst ?R) # tl (fst ?R), snd ?R)"
    by (simp add: split_def Let_def)
  have h: "Bucket_hash example_hash (hd (fst ?R)) = ''missing''"
    by (simp add: split_def Let_def Cluster_Bucket_def newBucket_def cacheClient_def
          Bucket_hash_def example_hash_def)
  from C4_floating_client_claimed_once[OF ok fl run] h show ?thesis
    by (simp add: list_all_iff)
qed

text \<open>
  Claim C4 as stated fails on the example cluster: the floating client is object 0, and
  the second acquisition of the bucket \<^verbatim>\<open>default\<close> receives it again.
\<close>

theorem C4_floating_client_counterexample:
  "clusterClient example_cluster = Some 0
   \<and> map sb_cachedClient (fst (Bucket_seq example_hash example_transport
          [''default'', ''default''] example_cluster)) = [Some 0, Some 0]"
  by (simp add: Cluster_Bucket_def takeClusterClient_def getClient_def newClient_def
        client_selectBucket_def client_buildConfig_def client_connect_def
        setBootstrapError_def newBucket_def cacheClient_def Bucket_hash_def
        example_hash_def example_transport_def example_cluster_def Let_def)

section \<open>Error enhancement: transport errors to domain errors\<close>

lemma translate_reasons_strings:
  "map reason_string (translateCoreRetryReasons rs) = map core_reason_string rs"
  by (simp add: translateCoreRetryReasons_def comp_def)

text \<open>
  Claim C7. \<^verbatim>\<open>maybeEnhanceCoreErr\<close> is total. For each of the five transport error
  kinds it returns the corresponding domain error with every field equal to the source
  field, the sub-error lists equal element by element in each of their fields, the retry
  reasons equal string by string in the same order, and the retry attempts unchanged.
  Every other error value is returned unchanged.
\<close>

theorem C7_maybeEnhanceCoreErr_copies:
  "(\<exists>k. maybeEnhanceCoreErr (Core_KeyValueError kvErr) = Gocb_KeyValueError k
        \<and> kv_InnerError k = ckv_InnerError kvErr
        \<and> kv_StatusCode k = ckv_StatusCode kvErr
        \<and> kv_BucketName k = ckv_BucketName kvErr
        \<and> kv_ScopeName k = ckv_ScopeName kvErr
        \<and> kv_CollectionName k = ckv_CollectionName kvErr
        \<and> kv_CollectionID k = ckv_CollectionID kvErr
        \<and> kv_ErrorName k = ckv_ErrorName kvErr
        \<and> kv_ErrorDescription k = ckv_ErrorDescription kvErr
        \<and> kv_Opaque k = ckv_Opaque kvErr
        \<and> kv_Context k = ckv_Context kvErr
        \<and> kv_Ref k = ckv_Ref kvErr
        \<and> map reason_string (kv_RetryReasons k) = map core_reason_string (ckv_RetryReasons kvErr)
        \<and> kv_RetryAttempts k = ckv_RetryAttempts kvErr)
   \<and> (\<exists>v. maybeEnhanceCoreErr (Core_ViewError viewErr) = Gocb_ViewError v
        \<and> view_InnerError v = cview_InnerError viewErr
        \<and> view_DesignDocumentName v = cview_DesignDocumentName viewErr
        \<and> view_ViewName v = cview_ViewName viewErr
        \<and> map ved_SourceNode (view_Errors v) = map cved_SourceNode (cview_Errors viewErr)
        \<and> map ved_Message (view_Errors v) = map cved_Message (cview_Errors viewErr)
        \<and> view_Endpoint v = cview_Endpoint viewErr
        \<and> map reason_string (view_RetryReasons v)
            = map core_reason_string (cview_RetryReasons viewErr)
        \<and> view_RetryAttempts v = cview_RetryAttempts viewErr)
   \<and> (\<exists>q. maybeEnhanceCoreErr (Core_N1QLError queryErr) = Gocb_QueryError q
        \<and> query_InnerError q = cquery_InnerError queryErr
        \<and> query_Statement q = cquery_Statement queryErr
        \<and> query_ClientContextID q = cquery_ClientContextID queryErr
        \<and> map qed_Code (query_Errors q) = map cqed_Code (cquery_Errors queryErr)
        \<and> map qed_Message (query_Errors q) = map cqed_Message (cquery_Errors queryErr)
        \<and> query_Endpoint q = cquery_Endpoint queryErr
        \<and> map reason_string (query_RetryReasons q)
            = map core_reason_string (cquery_RetryReasons queryErr)
        \<and> query_RetryAttempts q = cquery_RetryAttempts queryErr)
   \<and> (\<exists>a. maybeEnhanceCoreErr (Core_AnalyticsError analyticsErr) = Gocb_AnalyticsError a
        \<and> analytics_InnerError a = canalytics_InnerError analyticsErr
        \<and> analytics_Statement a = canalytics_Statement analyticsErr
        \<and> analytics_ClientContextID a = canalytics_ClientContextID analyticsErr
        \<and> map aed_Code (analytics_Errors a) = map caed_Code (canalytics_Errors analyticsErr)
        \<and> map aed_Message (analytics_Errors a)
            = map caed_Message (canalytics_Errors analyticsErr)
        \<and> analytics_Endpoint a = canalytics_Endpoint analyticsErr
        \<and> map reason_string (analytics_RetryReasons a)
            = map core_reason_string (canalytics_RetryReasons analyticsErr)
        \<and> analytics_RetryAttempts a = canalytics_RetryAttempts analyticsErr)
   \<and> (\<exists>h. maybeEnhanceCoreErr (Core_HTTPError httpErr) = Gocb_HTTPError h
        \<and> http_InnerError h = chttp_InnerError httpErr
        \<and> http_UniqueID h = chttp_UniqueID httpErr
        \<and> http_Endpoint h = chttp_Endpoint httpErr
        \<and> map reason_string (http_RetryReasons h)
            = map core_reason_string (chttp_RetryReasons httpErr)
        \<and> http_RetryAttempts h = chttp_RetryAttempts httpErr)
   \<and> maybeEnhanceCoreErr (Gocb_KeyValueError k') = Gocb_KeyValueError k'
   \<and> maybeEnhanceCoreErr (Gocb_ViewError v') = Gocb_ViewError v'
   \<and> maybeEnhanceCoreErr (Gocb_QueryError q') = Gocb_QueryError q'
   \<and> maybeEnhanceCoreErr (Gocb_AnalyticsError a') = Gocb_AnalyticsError a'
   \<and> maybeEnhanceCoreErr (Gocb_HTTPError h') = Gocb_HTTPError h'
   \<and> maybeEnhanceCoreErr (Other_error e) = Other_error e
   \<and> maybeEnhanceCoreErr Nil_error = Nil_error"
  by (simp add: translate_reasons_strings translateCoreViewErrorDesc_def
        translateCoreQueryErrorDesc_def translateCoreAnalyticsErrorDesc_def comp_def)

end
